theory Spec2Isabelle
  imports Complex_Main "HOL-Library.Multiset"
begin

section \<open>The global audio controller (src/components/audioController.js)\<close>

subsection \<open>JavaScript values used by the controller\<close>

text \<open>
  Tracks, queue items and the current-track record are duck-typed objects built from
  each other by object spread (\<^verbatim>\<open>{...track, id: n}\<close>). One record with every property
  optional holds them all, so that a spread is a record update and a property that was
  never set reads as \<open>None\<close> (JavaScript \<^verbatim>\<open>undefined\<close>, or \<^verbatim>\<open>null\<close> for \<open>peaks\<close>).
  Numbers that hold indices and counters are \<open>int\<close>; times and amplitudes are \<open>real\<close>.
\<close>

record track =
  src :: "string option"
  title :: "string option"
  index :: "int option"
  originalIndex :: "int option"
  item_id :: "int option"
  playlistId :: "string option"
  sourceRoute :: "string option"
  peaks :: "real list option"
  duration :: "real option"

definition empty_object :: track where
  "empty_object = \<lparr>src = None, title = None, index = None, originalIndex = None,
     item_id = None, playlistId = None, sourceRoute = None, peaks = None, duration = None\<rparr>"

text \<open>
  An array element is \<open>Some\<close> object or \<open>None\<close> for \<^verbatim>\<open>undefined\<close>; reading an array
  outside its bounds gives \<^verbatim>\<open>undefined\<close> as well.
\<close>

type_synonym entry = "track option"

definition js_index :: "'a option list \<Rightarrow> int \<Rightarrow> 'a option" where
  "js_index xs i = (if 0 \<le> i \<and> i < int (length xs) then xs ! nat i else None)"

text \<open>The spread of \<^verbatim>\<open>undefined\<close> copies nothing.\<close>

definition spread :: "entry \<Rightarrow> track" where
  "spread e = (case e of None \<Rightarrow> empty_object | Some t \<Rightarrow> t)"

text \<open>
  \<^verbatim>\<open>Array.prototype.splice\<close> and \<^verbatim>\<open>slice\<close> take a relative position: a negative one
  counts from the end, and both ends are clamped to the array.
\<close>

definition relative_index :: "int \<Rightarrow> nat \<Rightarrow> nat" where
  "relative_index i len = (if i < 0 then nat (max (int len + i) 0) else min (nat i) len)"

definition splice_remove :: "'a list \<Rightarrow> int \<Rightarrow> 'a list \<times> 'a list" where
  \<comment> \<open>\<^verbatim>\<open>xs.splice(start, 1)\<close>: the array afterwards, and the array of removed elements\<close>
  "splice_remove xs start =
     (let k = relative_index start (length xs)
      in (take k xs @ drop (Suc k) xs, take 1 (drop k xs)))"

definition splice_insert :: "'a list \<Rightarrow> int \<Rightarrow> 'a \<Rightarrow> 'a list" where
  \<comment> \<open>\<^verbatim>\<open>xs.splice(start, 0, x)\<close>\<close>
  "splice_insert xs start x =
     (let k = relative_index start (length xs) in take k xs @ x # drop k xs)"

definition slice :: "'a list \<Rightarrow> int \<Rightarrow> int \<Rightarrow> 'a list" where
  \<comment> \<open>\<^verbatim>\<open>xs.slice(from, to)\<close>\<close>
  "slice xs from to =
     (let k = relative_index from (length xs); e = relative_index to (length xs)
      in take (e - k) (drop k xs))"

definition slice_from :: "'a list \<Rightarrow> int \<Rightarrow> 'a list" where
  \<comment> \<open>\<^verbatim>\<open>xs.slice(from)\<close>\<close>
  "slice_from xs from = drop (relative_index from (length xs)) xs"

subsection \<open>The audio element\<close>

text \<open>
  The controller drives one \<^verbatim>\<open>Audio\<close> element. Of the platform object the model keeps
  what the controller reads and writes: the source, the playback position, the duration
  (\<open>None\<close> while it is \<^verbatim>\<open>NaN\<close>) and the paused flag. Assigning \<^verbatim>\<open>src\<close> starts the
  element's load: the position returns to 0, the duration is unknown again and the
  element is paused. \<open>audio_src\<close> is the element's \<^verbatim>\<open>src\<close> attribute, \<open>None\<close> while it was never
  assigned: reading \<^verbatim>\<open>audio.src\<close> then gives the empty string, and afterwards the
  assigned string resolved against the page's address, which is never empty. The events
  the element fires afterwards (\<^verbatim>\<open>play\<close>, \<^verbatim>\<open>pause\<close>, \<^verbatim>\<open>ended\<close>) reach the controller as
  calls of its handlers, which are operations of their own below.
\<close>

record audio_element =
  audio_src :: "string option"
  currentTime :: real
  audio_duration :: "real option"
  paused :: bool

definition set_src :: "string option \<Rightarrow> audio_element \<Rightarrow> audio_element" where
  \<comment> \<open>\<^verbatim>\<open>audio.src = v\<close>; \<^verbatim>\<open>undefined\<close> is converted to the string "undefined"\<close>
  "set_src v a = a\<lparr>audio_src := Some (case v of None \<Rightarrow> ''undefined'' | Some u \<Rightarrow> u),
     currentTime := 0, audio_duration := None, paused := True\<rparr>"

definition audio_play :: "audio_element \<Rightarrow> audio_element" where
  "audio_play a = a\<lparr>paused := False\<rparr>"

definition audio_pause :: "audio_element \<Rightarrow> audio_element" where
  "audio_pause a = a\<lparr>paused := True\<rparr>"

subsection \<open>Controller state\<close>

text \<open>
  The module-level \<^verbatim>\<open>state\<close> object of an initialised controller (\<^verbatim>\<open>state.audio\<close> is
  set by \<^verbatim>\<open>initAudioController\<close>), together with the module-level \<^verbatim>\<open>queueIdCounter\<close>.
  The record leaves open how the queue and the current track are held: a \<open>controller\<close>
  holds the array and the object themselves, which is all the controller's own
  operations need; the section on \<^verbatim>\<open>getState\<close> holds references instead.
  A registered playlist is kept by its track list; its render callback and element id
  only paint the page. The mini-player's DOM is outside the model: \<^verbatim>\<open>updateMiniPlayer\<close>,
  which is also the one subscriber that \<^verbatim>\<open>notifySubscribers\<close> calls, reads the state and
  does not write it; the exception it can throw is modelled with the queue operations.
\<close>

record ('q, 'c) state_object =
  audio :: audio_element
  currentTrack :: 'c
  isPlaying :: bool
  miniPlayerVisible :: bool
  playlists :: "string \<rightharpoonup> entry list"
  queue :: 'q
  queueIndex :: int
  queueExpanded :: bool
  shuffle :: bool
  loop :: bool
  queueIdCounter :: int

type_synonym controller = "(entry list, track option) state_object"

datatype js_error = TypeError | EncodingError | RangeError

subsection \<open>Queue management\<close>

text \<open>
  \<^verbatim>\<open>queueIdCounter\<close> is a JavaScript number that starts at 0 and changes only by
  \<^verbatim>\<open>++queueIdCounter\<close>. Up to \<open>2^53\<close> the number is an exact integer and the increment
  adds one; at \<open>2^53\<close> the sum rounds back to \<open>2^53\<close> and the counter stays there.
\<close>

definition increment :: "int \<Rightarrow> int" where
  "increment c = (if c < 2 ^ 53 then c + 1 else c)"

text \<open>
  The mini-player is rebuilt by \<^verbatim>\<open>updateMiniPlayer\<close>, which the queue operations call
  last and which is also the subscriber that \<^verbatim>\<open>notifySubscribers\<close> calls. It writes no
  state; it throws a \<^verbatim>\<open>TypeError\<close> at \<^verbatim>\<open>state.queue.map(t => t.id)\<close> when an entry of
  the queue is \<^verbatim>\<open>undefined\<close>. The queue operations below give the state they have
  written by then.
\<close>

definition updateMiniPlayer :: "controller \<Rightarrow> js_error option" where
  "updateMiniPlayer s = (if None \<in> set (queue s) then Some TypeError else None)"

definition addToQueue :: "track \<Rightarrow> controller \<Rightarrow> controller" where
  "addToQueue t s =
     (let n = increment (queueIdCounter s)
      in s\<lparr>queue := queue s @ [Some (t\<lparr>item_id := Some n\<rparr>)], queueIdCounter := n\<rparr>)"

definition removeFromQueue :: "int \<Rightarrow> controller \<Rightarrow> controller" where
  "removeFromQueue i s =
     (let q = fst (splice_remove (queue s) i);
          qi = queueIndex s
      in s\<lparr>queue := q,
           queueIndex :=
             (if i < qi then qi - 1
              else if i = qi \<and> qi \<ge> int (length q) then max 0 (int (length q) - 1)
              else qi)\<rparr>)"

definition reorderQueue :: "int \<Rightarrow> int \<Rightarrow> controller \<Rightarrow> controller" where
  "reorderQueue fromIndex toIndex s =
     (let (q1, removed) = splice_remove (queue s) fromIndex;
          item = (case removed of [] \<Rightarrow> None | x # _ \<Rightarrow> x);
          q2 = splice_insert q1 toIndex item;
          qi = queueIndex s
      in s\<lparr>queue := q2,
           queueIndex :=
             (if fromIndex = qi then toIndex
              else if fromIndex < qi \<and> toIndex \<ge> qi then qi - 1
              else if fromIndex > qi \<and> toIndex \<le> qi then qi + 1
              else qi)\<rparr>)"

text \<open>The data model's invariant: with a non-empty queue, \<open>queueIndex\<close> is one of its indices.\<close>

definition valid_index :: "controller \<Rightarrow> bool" where
  "valid_index s \<longleftrightarrow> 0 \<le> queueIndex s \<and> queueIndex s < int (length (queue s))"

definition playing_item :: "controller \<Rightarrow> entry" where
  "playing_item s = js_index (queue s) (queueIndex s)"

text \<open>
  \<^verbatim>\<open>tracks.map((t, i) => ({...t, originalIndex: i, id: ++queueIdCounter}))\<close>: the
  array index \<open>i\<close> and the counter \<open>c\<close> advance together along the array.
\<close>

fun newTracks :: "int \<Rightarrow> int \<Rightarrow> entry list \<Rightarrow> entry list" where
  "newTracks i c [] = []"
| "newTracks i c (t # ts) =
     Some ((spread t)\<lparr>originalIndex := Some i, item_id := Some (increment c)\<rparr>)
       # newTracks (i + 1) (increment c) ts"

text \<open>\<^verbatim>\<open>xs.filter((_, i) => i !== k)\<close>, the index running from \<open>i\<close>.\<close>

fun filter_not_index :: "int \<Rightarrow> int \<Rightarrow> 'a list \<Rightarrow> 'a list" where
  "filter_not_index i k [] = []"
| "filter_not_index i k (x # xs) =
     (if i \<noteq> k then x # filter_not_index (i + 1) k xs else filter_not_index (i + 1) k xs)"

text \<open>
  An assignment \<^verbatim>\<open>arr[j] = v\<close>: inside the array it replaces the element, at or past the
  end it extends the array (the elements in between read as \<^verbatim>\<open>undefined\<close>), and a
  negative \<open>j\<close> is not an index and leaves the elements alone.
\<close>

definition js_set :: "'a option list \<Rightarrow> int \<Rightarrow> 'a option \<Rightarrow> 'a option list" where
  "js_set xs j v =
     (if j < 0 then xs
      else if j < int (length xs) then xs[nat j := v]
      else xs @ replicate (nat j - length xs) None @ [v])"

text \<open>
  \<^verbatim>\<open>shuffleArray\<close> (Fisher-Yates). \<^verbatim>\<open>Math.random()\<close> is a parameter: \<open>rnd i\<close> is the
  number drawn in the iteration whose loop variable is \<open>i\<close>. The loop runs \<open>i\<close> from
  \<^verbatim>\<open>arr.length - 1\<close> down to 1; the destructuring swap reads both elements first and
  then writes \<^verbatim>\<open>arr[i]\<close> and \<^verbatim>\<open>arr[j]\<close> in that order.
\<close>

fun shuffle_loop :: "(nat \<Rightarrow> real) \<Rightarrow> nat \<Rightarrow> 'a option list \<Rightarrow> 'a option list" where
  "shuffle_loop rnd 0 arr = arr"
| "shuffle_loop rnd (Suc k) arr =
     (let i = int (Suc k);
          j = \<lfloor>rnd (Suc k) * real_of_int (i + 1)\<rfloor>;
          ai = js_index arr i;
          aj = js_index arr j
      in shuffle_loop rnd k (js_set (js_set arr i aj) j ai))"

definition shuffleArray :: "(nat \<Rightarrow> real) \<Rightarrow> 'a option list \<Rightarrow> 'a option list" where
  "shuffleArray rnd arr = shuffle_loop rnd (length arr - 1) arr"

definition addPlaylistToQueue ::
  "(nat \<Rightarrow> real) \<Rightarrow> entry list \<Rightarrow> int \<Rightarrow> controller \<Rightarrow> controller" where
  "addPlaylistToQueue rnd tracks startIndex s =
     (let new = newTracks 0 (queueIdCounter s) tracks;
          q = (if shuffle s
               then js_index new startIndex # shuffleArray rnd (filter_not_index 0 startIndex new)
               else slice_from new startIndex @ slice new 0 startIndex)
      in s\<lparr>queue := q, queueIndex := 0,
           queueIdCounter := (increment ^^ length tracks) (queueIdCounter s)\<rparr>)"

definition toggleShuffle :: "(nat \<Rightarrow> real) \<Rightarrow> controller \<Rightarrow> controller" where
  "toggleShuffle rnd s =
     (let s1 = s\<lparr>shuffle := \<not> shuffle s\<rparr>
      in if shuffle s1 \<and> length (queue s1) > 1
         then (let current = js_index (queue s1) (queueIndex s1);
                   before = slice (queue s1) 0 (queueIndex s1);
                   after = slice_from (queue s1) (queueIndex s1 + 1);
                   rest = shuffleArray rnd (before @ after)
               in s1\<lparr>queue := current # rest, queueIndex := 0\<rparr>)
         else s1)"

definition toggleLoop :: "controller \<Rightarrow> controller" where
  "toggleLoop s = s\<lparr>loop := \<not> loop s\<rparr>"

definition toggleQueueExpanded :: "controller \<Rightarrow> controller" where
  "toggleQueueExpanded s = s\<lparr>queueExpanded := \<not> queueExpanded s\<rparr>"

subsection \<open>Playback\<close>

text \<open>
  An operation that can throw returns the state it leaves behind and the exception, if
  any: the exception ends the running handler, the controller lives on.
  \<^verbatim>\<open>playFromQueue\<close> throws a \<^verbatim>\<open>TypeError\<close> at \<^verbatim>\<open>track.src\<close> when the queue entry is
  \<^verbatim>\<open>undefined\<close>, after it has written \<open>queueIndex\<close> and \<open>currentTrack\<close>; otherwise it
  ends with \<^verbatim>\<open>notifySubscribers\<close> and \<^verbatim>\<open>updateMiniPlayer\<close>.
\<close>

definition playFromQueue :: "int \<Rightarrow> controller \<Rightarrow> controller \<times> js_error option" where
  "playFromQueue i s =
     (if i < 0 \<or> i \<ge> int (length (queue s)) then (s, None)
      else
        (let track = js_index (queue s) i;
             s1 = s\<lparr>queueIndex := i,
                    currentTrack := Some ((spread track)\<lparr>peaks := None, duration := Some 0\<rparr>)\<rparr>
         in case track of
              None \<Rightarrow> (s1, Some TypeError)
            | Some t \<Rightarrow>
                (let s2 = s1\<lparr>audio := audio_play (set_src (src t) (audio s1))\<rparr>
                 in (s2, updateMiniPlayer s2))))"

definition playNext :: "controller \<Rightarrow> controller \<times> js_error option" where
  "playNext s =
     (if length (queue s) = 0 then (s, None)
      else
        (let nextIndex = queueIndex s + 1
         in if nextIndex < int (length (queue s)) then playFromQueue nextIndex s
            else if loop s then playFromQueue 0 s
            else (let s1 = s\<lparr>audio := audio_pause (audio s), isPlaying := False\<rparr>
                  in (s1, updateMiniPlayer s1))))"

definition playPrev :: "controller \<Rightarrow> controller \<times> js_error option" where
  "playPrev s =
     (if length (queue s) = 0 then (s, None)
      else if currentTime (audio s) > 3
        then (s\<lparr>audio := (audio s)\<lparr>currentTime := 0\<rparr>\<rparr>, None)
      else
        (let prevIndex = queueIndex s - 1
         in if prevIndex \<ge> 0 then playFromQueue prevIndex s
            else if loop s then playFromQueue (int (length (queue s)) - 1) s
            else (s\<lparr>audio := (audio s)\<lparr>currentTime := 0\<rparr>\<rparr>, None)))"

definition stop :: "controller \<Rightarrow> controller" where
  "stop s = s\<lparr>audio := set_src (Some []) (audio_pause (audio s)),
     currentTrack := None, isPlaying := False, miniPlayerVisible := False,
     queue := [], queueIndex := 0, queueExpanded := False\<rparr>"

text \<open>
  \<^verbatim>\<open>playTrack\<close> begins with \<^verbatim>\<open>getAudioContext()\<close>, whose variable belongs to the module
  state of the section on waveform data: \<open>ctx\<close> is the exception that call throws, if any,
  and nothing is written when it throws. The start index passed on is \<^verbatim>\<open>track.index\<close>,
  the parameter's default 0 standing in when it is \<^verbatim>\<open>undefined\<close>; when the
  \<^verbatim>\<open>updateMiniPlayer\<close> that ends \<^verbatim>\<open>addPlaylistToQueue\<close> throws, the queue has been
  written and the current track and the audio element have not. The waveform requested
  at the end arrives later, as \<open>waveformResolved\<close>.
\<close>

definition playTrack ::
  "js_error option \<Rightarrow> (nat \<Rightarrow> real) \<Rightarrow> track \<Rightarrow> string \<Rightarrow> string \<Rightarrow> controller
     \<Rightarrow> controller \<times> js_error option" where
  "playTrack ctx rnd t pid route s =
     (case ctx of
        Some e \<Rightarrow> (s, Some e)
      | None \<Rightarrow>
          (let populate = (case playlists s pid of
                             Some tracks \<Rightarrow> length (queue s) = 0
                           | None \<Rightarrow> False);
               s1 = (case playlists s pid of
                       Some tracks \<Rightarrow>
                         if length (queue s) = 0
                         then addPlaylistToQueue rnd tracks
                                (case index t of None \<Rightarrow> 0 | Some i \<Rightarrow> i) s
                         else s
                     | None \<Rightarrow> s)
           in if populate \<and> updateMiniPlayer s1 \<noteq> None then (s1, updateMiniPlayer s1)
              else
                (let s2 = s1\<lparr>currentTrack := Some (t\<lparr>playlistId := Some pid,
                                 sourceRoute := Some route, peaks := None, duration := Some 0\<rparr>),
                             audio := audio_play (set_src (src t) (audio s1)),
                             miniPlayerVisible := True\<rparr>
                 in (s2, updateMiniPlayer s2))))"

text \<open>
  The continuation of the waveform request made for a track whose \<^verbatim>\<open>src\<close> was \<open>requested\<close>:
  \<^verbatim>\<open>if (state.currentTrack?.src === track.src) { state.currentTrack.peaks = ...}\<close>.
\<close>

definition waveformResolved ::
  "string option \<Rightarrow> real list \<Rightarrow> real \<Rightarrow> controller \<Rightarrow> controller \<times> js_error option" where
  "waveformResolved requested ps d s =
     (case currentTrack s of
        None \<Rightarrow> (s, if requested = None then Some TypeError else None)
      | Some ct \<Rightarrow>
          if src ct = requested
          then (s\<lparr>currentTrack := Some (ct\<lparr>peaks := Some ps, duration := Some d\<rparr>)\<rparr>, None)
          else (s, None))"

definition togglePlay :: "controller \<Rightarrow> controller" where
  "togglePlay s =
     (if audio_src (audio s) = None then s
      else if isPlaying s then s\<lparr>audio := audio_pause (audio s)\<rparr>
      else s\<lparr>audio := audio_play (audio s)\<rparr>)"

definition pause :: "controller \<Rightarrow> controller" where
  "pause s = s\<lparr>audio := audio_pause (audio s)\<rparr>"

definition seek :: "real \<Rightarrow> controller \<Rightarrow> controller" where
  "seek percent s =
     (case audio_duration (audio s) of
        None \<Rightarrow> s
      | Some d \<Rightarrow> if d = 0 then s else s\<lparr>audio := (audio s)\<lparr>currentTime := percent * d\<rparr>\<rparr>)"

text \<open>The listeners that \<^verbatim>\<open>initAudioController\<close> puts on the audio element.\<close>

definition on_play :: "controller \<Rightarrow> controller" where
  "on_play s = s\<lparr>isPlaying := True\<rparr>"

definition on_pause :: "controller \<Rightarrow> controller" where
  "on_pause s = s\<lparr>isPlaying := False\<rparr>"

definition handleTrackEnd :: "controller \<Rightarrow> controller \<times> js_error option" where
  "handleTrackEnd s = playNext s"

definition registerPlaylist :: "string \<Rightarrow> entry list \<Rightarrow> controller \<Rightarrow> controller" where
  "registerPlaylist pid tracks s = s\<lparr>playlists := (playlists s)(pid \<mapsto> tracks)\<rparr>"

definition unregisterPlaylist :: "string \<Rightarrow> controller \<Rightarrow> controller" where
  "unregisterPlaylist pid s = s\<lparr>playlists := (playlists s)(pid := None)\<rparr>"

subsection \<open>getState and the references it returns\<close>

text \<open>
  \<^verbatim>\<open>getState\<close> builds a new object from the fields of \<^verbatim>\<open>state\<close>; \<^verbatim>\<open>currentTime\<close> and
  \<^verbatim>\<open>duration\<close> come from the audio element, with \<^verbatim>\<open>|| 0\<close> replacing a \<^verbatim>\<open>NaN\<close> duration.
\<close>

record ('q, 'c) snapshot =
  snap_currentTrack :: 'c
  snap_isPlaying :: bool
  snap_currentTime :: real
  snap_duration :: real
  snap_queue :: 'q
  snap_queueIndex :: int
  snap_queueExpanded :: bool
  snap_shuffle :: bool
  snap_loop :: bool

definition getState :: "('q, 'c) state_object \<Rightarrow> ('q, 'c) snapshot" where
  "getState s = \<lparr>snap_currentTrack = currentTrack s,
     snap_isPlaying = isPlaying s,
     snap_currentTime = currentTime (audio s),
     snap_duration = (case audio_duration (audio s) of None \<Rightarrow> 0 | Some d \<Rightarrow> d),
     snap_queue = queue s,
     snap_queueIndex = queueIndex s,
     snap_queueExpanded = queueExpanded s,
     snap_shuffle = shuffle s,
     snap_loop = loop s\<rparr>"

text \<open>
  In JavaScript \<^verbatim>\<open>state.queue\<close> and \<^verbatim>\<open>state.currentTrack\<close> do not hold an array and an
  object but references to them. The store maps a reference to the array or object it
  denotes; \<open>stored_state\<close> is the \<^verbatim>\<open>state\<close> object with references in those two fields
  (\<open>None\<close> for \<^verbatim>\<open>null\<close>), and \<open>controller_of\<close> reads the controller's state through them.
\<close>

type_synonym ref = nat

record store =
  arrays :: "ref \<rightharpoonup> entry list"
  objects :: "ref \<rightharpoonup> track"

type_synonym stored_state = "(ref, ref option) state_object"

definition controller_of :: "store \<Rightarrow> stored_state \<Rightarrow> controller" where
  "controller_of h st = \<lparr>audio = audio st,
     currentTrack = (case currentTrack st of None \<Rightarrow> None | Some r \<Rightarrow> objects h r),
     isPlaying = isPlaying st,
     miniPlayerVisible = miniPlayerVisible st,
     playlists = playlists st,
     queue = (case arrays h (queue st) of None \<Rightarrow> [] | Some xs \<Rightarrow> xs),
     queueIndex = queueIndex st,
     queueExpanded = queueExpanded st,
     shuffle = shuffle st,
     loop = loop st,
     queueIdCounter = queueIdCounter st\<rparr>"

text \<open>What a caller can do with the array and the object a snapshot refers to.\<close>

definition array_push :: "ref \<Rightarrow> entry \<Rightarrow> store \<Rightarrow> store" where
  \<comment> \<open>\<^verbatim>\<open>a.push(x)\<close> on the array at \<open>r\<close>\<close>
  "array_push r x h =
     (case arrays h r of None \<Rightarrow> h | Some xs \<Rightarrow> h\<lparr>arrays := (arrays h)(r \<mapsto> xs @ [x])\<rparr>)"

definition object_set_title :: "ref \<Rightarrow> string \<Rightarrow> store \<Rightarrow> store" where
  \<comment> \<open>\<^verbatim>\<open>o.title = v\<close> on the object at \<open>r\<close>\<close>
  "object_set_title r v h =
     (case objects h r of None \<Rightarrow> h | Some t \<Rightarrow> h\<lparr>objects := (objects h)(r \<mapsto> t\<lparr>title := Some v\<rparr>)\<rparr>)"

text \<open>
  The same two mutations made by a caller through a snapshot it was handed:
  \<^verbatim>\<open>snapshot.queue.push(x)\<close> and \<^verbatim>\<open>snapshot.currentTrack.title = v\<close> (which throws, and
  changes nothing, when the current track is \<^verbatim>\<open>null\<close>).
\<close>

definition push_through_snapshot :: "(ref, ref option) snapshot \<Rightarrow> entry \<Rightarrow> store \<Rightarrow> store" where
  "push_through_snapshot snap x h = array_push (snap_queue snap) x h"

definition rename_through_snapshot :: "(ref, ref option) snapshot \<Rightarrow> string \<Rightarrow> store \<Rightarrow> store" where
  "rename_through_snapshot snap v h =
     (case snap_currentTrack snap of None \<Rightarrow> h | Some r \<Rightarrow> object_set_title r v h)"

subsection \<open>Waveform data\<close>

text \<open>
  \<^verbatim>\<open>getWaveformData\<close> is asynchronous; the model runs one call to its end before the
  next starts, and an exception that rejects the returned promise is the \<open>Inl\<close> of its
  result. The platform's \<^verbatim>\<open>fetch\<close>, \<^verbatim>\<open>response.arrayBuffer\<close> and
  \<^verbatim>\<open>ctx.decodeAudioData\<close> are parameters that return a value or the exception they
  reject with, and every call of one of them is recorded in \<open>calls\<close>;
  \<open>newAudioContext\<close> is the exception that \<^verbatim>\<open>new AudioContext()\<close> throws, if any. The bar
  count is any finite number (80 when the caller passes none).
\<close>

record waveform =
  w_peaks :: "real list"
  w_duration :: real

record audio_buffer =
  channel_data :: "real list"
  buffer_duration :: real

record ('r, 'b) platform =
  newAudioContext :: "js_error option"
  fetch :: "string \<Rightarrow> js_error + 'r"
  arrayBuffer :: "'r \<Rightarrow> js_error + 'b"
  decodeAudioData :: "'b \<Rightarrow> js_error + audio_buffer"

datatype platform_call = Fetch string | ArrayBuffer | DecodeAudioData

record waveform_module =
  audioContext :: bool
  waveformCache :: "string \<rightharpoonup> waveform"
  calls :: "platform_call list"

text \<open>
  \<^verbatim>\<open>getAudioContext\<close> creates the shared context on first use; when the constructor
  throws, the variable stays \<^verbatim>\<open>null\<close>. Resuming a suspended context changes nothing
  that the module reads.
\<close>

definition getAudioContext ::
  "('r, 'b) platform \<Rightarrow> waveform_module \<Rightarrow> js_error + waveform_module" where
  "getAudioContext p w =
     (if audioContext w then Inr w
      else case newAudioContext p of
             Some e \<Rightarrow> Inl e
           | None \<Rightarrow> Inr (w\<lparr>audioContext := True\<rparr>))"

definition block_peak :: "real list \<Rightarrow> real" where
  \<comment> \<open>the inner loop: the largest absolute value of a block, from 0\<close>
  "block_peak block = foldl (\<lambda>m x. if \<bar>x\<bar> > m then \<bar>x\<bar> else m) 0 block"

fun math_max :: "real list \<Rightarrow> real option" where
  \<comment> \<open>\<^verbatim>\<open>Math.max(...xs)\<close>; \<open>None\<close> is \<^verbatim>\<open>-Infinity\<close>, the result for no arguments\<close>
  "math_max [] = None"
| "math_max (x # xs) = Some (foldl max x xs)"

text \<open>
  The outer loop runs while \<^verbatim>\<open>i < barCount\<close>, that is for \<open>i\<close> below the ceiling of the
  bar count, and not at all when the bar count is 0 or negative. A read past the end of
  the samples gives \<^verbatim>\<open>undefined\<close>, whose absolute value compares false with the
  maximum, so only the samples that exist count.
\<close>

definition compute_waveform :: "audio_buffer \<Rightarrow> real \<Rightarrow> waveform" where
  "compute_waveform buf barCount =
     (let rawData = channel_data buf;
          samples = length rawData;
          blockSize = nat \<lfloor>real samples / barCount\<rfloor>;
          ps = map (\<lambda>i. block_peak (take blockSize (drop (i * blockSize) rawData)))
                 [0..<nat \<lceil>barCount\<rceil>];
          maxPeak = math_max ps;
          normalized = map (\<lambda>p. case maxPeak of None \<Rightarrow> 0.3
                                     | Some m \<Rightarrow> if m > 0 then p / m else 0.3) ps
      in \<lparr>w_peaks = normalized, w_duration = buffer_duration buf\<rparr>)"

definition decode_path ::
  "('r, 'b) platform \<Rightarrow> string \<Rightarrow> real \<Rightarrow> (js_error + waveform) \<times> platform_call list" where
  \<comment> \<open>the body of the \<^verbatim>\<open>try\<close> block, with the platform calls it makes\<close>
  "decode_path p source barCount =
     (case fetch p source of
        Inl e \<Rightarrow> (Inl e, [Fetch source])
      | Inr response \<Rightarrow>
          (case arrayBuffer p response of
             Inl e \<Rightarrow> (Inl e, [Fetch source, ArrayBuffer])
           | Inr bytes \<Rightarrow>
               (case decodeAudioData p bytes of
                  Inl e \<Rightarrow> (Inl e, [Fetch source, ArrayBuffer, DecodeAudioData])
                | Inr buf \<Rightarrow>
                    (Inr (compute_waveform buf barCount),
                     [Fetch source, ArrayBuffer, DecodeAudioData]))))"

text \<open>
  The \<^verbatim>\<open>catch\<close> block builds the placeholder with \<^verbatim>\<open>Array(barCount).fill(0.3)\<close>, and
  \<^verbatim>\<open>Array(n)\<close> throws a \<^verbatim>\<open>RangeError\<close> unless \<open>n\<close> is an integer from 0 to \<open>2^32 - 1\<close>.
\<close>

definition array_length :: "real \<Rightarrow> js_error + nat" where
  "array_length n =
     (if 0 \<le> n \<and> n \<le> 2 ^ 32 - 1 \<and> n = of_int \<lfloor>n\<rfloor> then Inr (nat \<lfloor>n\<rfloor>) else Inl RangeError)"

definition getWaveformData ::
  "('r, 'b) platform \<Rightarrow> string \<Rightarrow> real \<Rightarrow> waveform_module
     \<Rightarrow> (js_error + waveform) \<times> waveform_module" where
  "getWaveformData p source barCount w =
     (case waveformCache w source of
        Some cached \<Rightarrow> (Inr cached, w)
      | None \<Rightarrow>
          (case getAudioContext p w of
             Inl e \<Rightarrow> (Inl e, w)
           | Inr w1 \<Rightarrow>
               (let (r, cs) = decode_path p source barCount;
                    w2 = w1\<lparr>calls := calls w1 @ cs\<rparr>
                in case r of
                     Inr result \<Rightarrow>
                       (Inr result, w2\<lparr>waveformCache := (waveformCache w2)(source \<mapsto> result)\<rparr>)
                   | Inl e \<Rightarrow>
                       (case array_length barCount of
                          Inl e' \<Rightarrow> (Inl e', w2)
                        | Inr n \<Rightarrow> (Inr \<lparr>w_peaks = replicate n 0.3, w_duration = 0\<rparr>, w2)))))"

subsection \<open>Sequences of operations\<close>

text \<open>
  Every exported operation, the listeners on the audio element and the two internal
  entry points reached from the page (a click on a queue row calls \<^verbatim>\<open>playFromQueue\<close>,
  a resolved waveform request runs its continuation) as one step of the controller.
  A step that throws leaves the state it had written.
\<close>

datatype operation =
    AddToQueue track
  | AddPlaylistToQueue "nat \<Rightarrow> real" "entry list" int
  | RemoveFromQueue int
  | ReorderQueue int int
  | ToggleShuffle "nat \<Rightarrow> real"
  | ToggleLoop
  | ToggleQueueExpanded
  | PlayTrack "js_error option" "nat \<Rightarrow> real" track string string
  | PlayFromQueue int
  | PlayNext
  | PlayPrev
  | Stop
  | TogglePlay
  | Pause
  | Seek real
  | OnPlay
  | OnPause
  | HandleTrackEnd
  | WaveformResolved "string option" "real list" real
  | RegisterPlaylist string "entry list"
  | UnregisterPlaylist string

fun step :: "operation \<Rightarrow> controller \<Rightarrow> controller" where
  "step (AddToQueue t) s = addToQueue t s"
| "step (AddPlaylistToQueue rnd tracks startIndex) s = addPlaylistToQueue rnd tracks startIndex s"
| "step (RemoveFromQueue i) s = removeFromQueue i s"
| "step (ReorderQueue fromIndex toIndex) s = reorderQueue fromIndex toIndex s"
| "step (ToggleShuffle rnd) s = toggleShuffle rnd s"
| "step ToggleLoop s = toggleLoop s"
| "step ToggleQueueExpanded s = toggleQueueExpanded s"
| "step (PlayTrack ctx rnd t pid route) s = fst (playTrack ctx rnd t pid route s)"
| "step (PlayFromQueue i) s = fst (playFromQueue i s)"
| "step PlayNext s = fst (playNext s)"
| "step PlayPrev s = fst (playPrev s)"
| "step Stop s = stop s"
| "step TogglePlay s = togglePlay s"
| "step Pause s = pause s"
| "step (Seek percent) s = seek percent s"
| "step OnPlay s = on_play s"
| "step OnPause s = on_pause s"
| "step HandleTrackEnd s = fst (handleTrackEnd s)"
| "step (WaveformResolved requested ps d) s = fst (waveformResolved requested ps d s)"
| "step (RegisterPlaylist pid tracks) s = registerPlaylist pid tracks s"
| "step (UnregisterPlaylist pid) s = unregisterPlaylist pid s"

fun run :: "operation list \<Rightarrow> controller \<Rightarrow> controller" where
  "run [] s = s"
| "run (x # xs) s = run xs (step x s)"

text \<open>
  The queue items an operation creates in state \<open>s\<close>, in the order in which their ids
  are assigned: the item \<^verbatim>\<open>addToQueue\<close> pushes, and the array \<^verbatim>\<open>newTracks\<close> of
  \<^verbatim>\<open>addPlaylistToQueue\<close>, which \<^verbatim>\<open>playTrack\<close> calls for a registered playlist when the
  queue is empty. \<open>all_created\<close> collects them along a sequence of operations, and
  \<open>assigned_ids\<close> reads their ids. That these are the items the operations put into the
  queue, and no others, is part of what is proved about them.
\<close>

fun created :: "operation \<Rightarrow> controller \<Rightarrow> entry list" where
  "created (AddToQueue t) s = [last (queue (addToQueue t s))]"
| "created (AddPlaylistToQueue rnd tracks startIndex) s = newTracks 0 (queueIdCounter s) tracks"
| "created (PlayTrack ctx rnd t pid route) s =
     (case playlists s pid of
        Some tracks \<Rightarrow>
          if ctx = None \<and> length (queue s) = 0 then newTracks 0 (queueIdCounter s) tracks else []
      | None \<Rightarrow> [])"
| "created _ s = []"



fun playNext_times :: "nat \<Rightarrow> controller \<Rightarrow> controller" where
  "playNext_times 0 s = s"
| "playNext_times (Suc n) s = fst (playNext (playNext_times n s))"

subsection \<open>The initial state and example states\<close>

text \<open>
  The state of a freshly initialised controller, as the module declares it, and a
  controller with the four-item queue \<open>[A, B, C, D]\<close> in which \<open>C\<close> is playing.
\<close>

definition initial_audio :: audio_element where
  "initial_audio = \<lparr>audio_src = None, currentTime = 0, audio_duration = None, paused = True\<rparr>"

definition initial_state :: controller where
  "initial_state = \<lparr>audio = initial_audio, currentTrack = None, isPlaying = False,
     miniPlayerVisible = False, playlists = Map.empty, queue = [], queueIndex = 0,
     queueExpanded = False, shuffle = False, loop = False, queueIdCounter = 0\<rparr>"

definition new_track :: "string \<Rightarrow> int \<Rightarrow> track" where
  "new_track name i = empty_object\<lparr>src := Some name, title := Some name, index := Some i\<rparr>"

definition queued :: "string \<Rightarrow> int \<Rightarrow> entry" where
  "queued name n = Some ((new_track name 0)\<lparr>item_id := Some n\<rparr>)"

definition abcd_state :: controller where
  "abcd_state = initial_state\<lparr>queue := [queued ''A'' 1, queued ''B'' 2, queued ''C'' 3, queued ''D'' 4],
      queueIndex := 2, queueIdCounter := 4\<rparr>"

definition abcd_tracks :: "entry list" where
  "abcd_tracks = [Some (new_track ''A'' 0), Some (new_track ''B'' 1),
                  Some (new_track ''C'' 2), Some (new_track ''D'' 3)]"

text \<open>
  A controller whose queue has been emptied while its track plays on: a one-track
  playlist is registered and played, the queue's only row is removed in the mini-player,
  and the audio element has reached 5 of 200 seconds.
\<close>

definition track_a :: track where
  "track_a = new_track ''a.mp3'' 0"

definition emptied_queue_state :: controller where
  "emptied_queue_state =
     (let s = run [RegisterPlaylist ''p'' [Some track_a],
                   PlayTrack None (\<lambda>i. 0) track_a ''p'' ''/'',
                   OnPlay, RemoveFromQueue 0] initial_state
      in s\<lparr>audio := (audio s)\<lparr>currentTime := 5, audio_duration := Some 200\<rparr>\<rparr>)"


text \<open>
  A store and a stored state: the queue \<open>[A, B]\<close> is the array at reference 0, the current
  track is the object at reference 1.
\<close>

definition example_store :: store where
  "example_store = \<lparr>arrays = [0 \<mapsto> [queued ''A'' 1, queued ''B'' 2]],
     objects = [1 \<mapsto> spread (queued ''A'' 1)]\<rparr>"

definition example_stored_state :: stored_state where
  "example_stored_state = \<lparr>audio = initial_audio\<lparr>audio_duration := Some 200\<rparr>,
     currentTrack = Some 1, isPlaying = True,
     miniPlayerVisible = True, playlists = Map.empty, queue = 0, queueIndex = 0,
     queueExpanded = False, shuffle = False, loop = False, queueIdCounter = 2\<rparr>"

text \<open>
  Platforms for one file of four samples lasting two seconds: one that answers, one
  whose \<^verbatim>\<open>fetch\<close> is rejected, one whose \<^verbatim>\<open>decodeAudioData\<close> is rejected and one that
  has no \<^verbatim>\<open>AudioContext\<close> constructor; and the module state before the first call.
\<close>

definition online :: "(string, real list) platform" where
  "online = \<lparr>newAudioContext = None,
     fetch = (\<lambda>u. Inr u),
     arrayBuffer = (\<lambda>u. Inr [1 / 2, - 1, 1 / 4, 0]),
     decodeAudioData = (\<lambda>b. Inr \<lparr>channel_data = b, buffer_duration = 2\<rparr>)\<rparr>"

definition offline :: "(string, real list) platform" where
  "offline = online\<lparr>fetch := (\<lambda>u. Inl TypeError)\<rparr>"

definition corrupt :: "(string, real list) platform" where
  "corrupt = online\<lparr>decodeAudioData := (\<lambda>b. Inl EncodingError)\<rparr>"

definition no_web_audio :: "(string, real list) platform" where
  "no_web_audio = offline\<lparr>newAudioContext := Some TypeError\<rparr>"

definition initial_module :: waveform_module where
  "initial_module = \<lparr>audioContext = False, waveformCache = Map.empty, calls = []\<rparr>"

section \<open>Properties\<close>


lemma splice_remove_in_range:
  "0 \<le> i \<Longrightarrow> i < int (length xs) \<Longrightarrow>
     splice_remove xs i = (take (nat i) xs @ drop (Suc (nat i)) xs, [xs ! nat i])"
  by (simp add: splice_remove_def relative_index_def Let_def min_def take_Suc_conv_app_nth
      hd_drop_conv_nth take_Suc)

subsection \<open>Queue operations and the playing item\<close>

lemma splice_insert_in_range:
  "0 \<le> i \<Longrightarrow> i \<le> int (length xs) \<Longrightarrow>
     splice_insert xs i x = take (nat i) xs @ x # drop (nat i) xs"
  by (auto simp add: splice_insert_def relative_index_def Let_def min_def)

lemma remove_nth:
  "f < length q \<Longrightarrow> k < length q - 1 \<Longrightarrow>
    (take f q @ drop (Suc f) q) ! k = (if k < f then q ! k else q ! Suc k)"
  by (simp add: nth_append min_def)

lemma insert_nth:
  "t \<le> length xs \<Longrightarrow> k \<le> length xs \<Longrightarrow>
    (take t xs @ x # drop t xs) ! k = (if k < t then xs ! k else if k = t then x else xs ! (k - 1))"
  by (auto simp add: nth_append min_def nth_Cons')

lemma reorder_nth:
  fixes q :: "'a list"
  assumes "f < length q" "t < length q" "k < length q"
  defines "q1 \<equiv> take f q @ drop (Suc f) q"
  defines "k' \<equiv> (if f = k then t else if f < k \<and> t \<ge> k then k - 1 else if f > k \<and> t \<le> k then k + 1 else k)"
  shows "(take t q1 @ (q ! f) # drop t q1) ! k' = q ! k"
proof -
  have len: "length q1 = length q - 1" using assms by (simp add: q1_def)
  have k'le: "k' \<le> length q1" using assms len by (auto simp: k'_def)
  have tle: "t \<le> length q1" using assms len by simp
  have q1n: "\<And>j. j < length q - 1 \<Longrightarrow> q1 ! j = (if j < f then q ! j else q ! Suc j)"
    unfolding q1_def using assms(1) by (rule remove_nth)
  show ?thesis
    unfolding insert_nth[OF tle k'le]
    using assms(1-3) by (auto simp: k'_def q1n)
qed

lemma addToQueue_valid: "valid_index s \<Longrightarrow> valid_index (addToQueue t s)"
  by (simp add: valid_index_def addToQueue_def Let_def)

lemma removeFromQueue_valid:
  assumes "valid_index s" "0 \<le> i" "i < int (length (queue s))" "queue (removeFromQueue i s) \<noteq> []"
  shows "valid_index (removeFromQueue i s)"
  using assms
  by (auto simp add: valid_index_def removeFromQueue_def Let_def splice_remove_in_range)

lemma removeFromQueue_item:
  assumes "valid_index s" "0 \<le> i" "i < int (length (queue s))" "i \<noteq> queueIndex s"
  shows "playing_item (removeFromQueue i s) = playing_item s"
  using assms
  by (auto simp add: valid_index_def playing_item_def js_index_def removeFromQueue_def Let_def splice_remove_in_range nth_append min_def nat_diff_distrib Suc_nat_eq_nat_zadd1)

lemma removeFromQueue_clamp:
  assumes "valid_index s" "i = queueIndex s" "queue (removeFromQueue i s) \<noteq> []"
  shows "queueIndex (removeFromQueue i s) = min (queueIndex s) (int (length (queue (removeFromQueue i s))) - 1)"
  using assms
  by (auto simp add: valid_index_def removeFromQueue_def Let_def splice_remove_in_range min_def)

lemma reorderQueue_valid:
  assumes "valid_index s" "0 \<le> f" "f < int (length (queue s))" "0 \<le> t" "t < int (length (queue s))" 
  shows "valid_index (reorderQueue f t s)"
  using assms
  by (auto simp add: valid_index_def reorderQueue_def Let_def splice_remove_in_range splice_insert_in_range min_def)

lemma reorderQueue_item:
  assumes v: "valid_index s" and f: "0 \<le> f" "f < int (length (queue s))"
    and t: "0 \<le> t" "t < int (length (queue s))" 
  shows "playing_item (reorderQueue f t s) = playing_item s"
proof -
  define q where "q = queue s"
  obtain k where kq: "queueIndex s = int k" "k < length q"
    using v by (auto simp: valid_index_def q_def elim: nonneg_int_cases)
  obtain f' where f': "f = int f'" "f' < length q"
    using f by (auto simp: q_def elim: nonneg_int_cases)
  obtain t' where t': "t = int t'" "t' < length q"
    using t by (auto simp: q_def elim: nonneg_int_cases)
  define q1 where "q1 = take f' q @ drop (Suc f') q"
  define k' where "k' = (if f' = k then t' else if f' < k \<and> t' \<ge> k then k - 1
     else if f' > k \<and> t' \<le> k then k + 1 else k)"
  have Q: "queue (reorderQueue f t s) = take t' q1 @ (q ! f') # drop t' q1"
    using f' t' by (simp add: reorderQueue_def Let_def splice_remove_in_range
        splice_insert_in_range q_def q1_def)
  have I: "queueIndex (reorderQueue f t s) = int k'"
    using kq by (auto simp: reorderQueue_def Let_def split_def k'_def f' t')
  have L: "length (queue (reorderQueue f t s)) = length q"
    using f'(2) t'(2) unfolding Q by (simp add: q1_def)
  have k'q: "k' < length q" using kq f' t' by (auto simp: k'_def)
  have N: "(take t' q1 @ (q ! f') # drop t' q1) ! k' = q ! k"
    unfolding q1_def k'_def by (rule reorder_nth[OF f'(2) t'(2) kq(2)])
  have "playing_item (reorderQueue f t s) = queue (reorderQueue f t s) ! k'"
    using k'q by (simp add: playing_item_def js_index_def I L)
  also have "\<dots> = q ! k"
    by (simp only: Q N)
  also have "\<dots> = playing_item s"
    using kq by (simp add: playing_item_def js_index_def flip: q_def)
  finally show ?thesis .
qed

text \<open>
  Claim C1. In a state whose queue is non-empty and whose \<open>queueIndex\<close> is a valid index,
  and for arguments that are indices of the queue: \<open>addToQueue\<close>, \<open>removeFromQueue\<close> and
  \<open>reorderQueue\<close> leave \<open>queueIndex\<close> a valid index whenever the resulting queue is
  non-empty; after \<open>reorderQueue\<close>, and after \<open>removeFromQueue\<close> of another item than the
  playing one, \<open>queue[queueIndex]\<close> is the item it was before (the same object, so the same
  id); when \<open>removeFromQueue\<close> removes the playing item, \<open>queueIndex\<close> stays where it is if
  that is still an index and otherwise moves to the last index.
\<close>

theorem queueIndex_follows_playing_item:
  assumes "queue s \<noteq> []" and "valid_index s"
    and "0 \<le> i" and "i < int (length (queue s))"
    and "0 \<le> fromIndex" and "fromIndex < int (length (queue s))"
    and "0 \<le> toIndex" and "toIndex < int (length (queue s))"
  shows "valid_index (addToQueue t s)
    \<and> (queue (removeFromQueue i s) \<noteq> [] \<longrightarrow> valid_index (removeFromQueue i s))
    \<and> queue (reorderQueue fromIndex toIndex s) \<noteq> []
    \<and> valid_index (reorderQueue fromIndex toIndex s)
    \<and> (i \<noteq> queueIndex s \<longrightarrow> playing_item (removeFromQueue i s) = playing_item s)
    \<and> (i = queueIndex s \<and> queue (removeFromQueue i s) \<noteq> [] \<longrightarrow>
         queueIndex (removeFromQueue i s)
           = min (queueIndex s) (int (length (queue (removeFromQueue i s))) - 1))
    \<and> playing_item (reorderQueue fromIndex toIndex s) = playing_item s"
proof -
  have "valid_index (reorderQueue fromIndex toIndex s)"
    using assms by (simp add: reorderQueue_valid)
  moreover from this have "queue (reorderQueue fromIndex toIndex s) \<noteq> []"
    by (auto simp: valid_index_def)
  moreover have "valid_index (addToQueue t s)"
    using assms by (simp add: addToQueue_valid)
  moreover have "queue (removeFromQueue i s) \<noteq> [] \<longrightarrow> valid_index (removeFromQueue i s)"
    using assms by (simp add: removeFromQueue_valid)
  moreover have "i \<noteq> queueIndex s \<longrightarrow> playing_item (removeFromQueue i s) = playing_item s"
    using assms by (simp add: removeFromQueue_item)
  moreover have "i = queueIndex s \<and> queue (removeFromQueue i s) \<noteq> [] \<longrightarrow>
         queueIndex (removeFromQueue i s)
           = min (queueIndex s) (int (length (queue (removeFromQueue i s))) - 1)"
    using assms removeFromQueue_clamp [of s i] by blast
  moreover have "playing_item (reorderQueue fromIndex toIndex s) = playing_item s"
    using assms by (simp add: reorderQueue_item)
  ultimately show ?thesis by blast
qed

theorem queueIndex_follows_playing_item_witness:
  "queue abcd_state \<noteq> [] \<and> valid_index abcd_state
   \<and> (0::int) \<le> 2 \<and> 2 < int (length (queue abcd_state))
   \<and> (0::int) \<le> 0 \<and> 0 < int (length (queue abcd_state))
   \<and> (0::int) \<le> 3 \<and> 3 < int (length (queue abcd_state))
   \<and> queue (removeFromQueue 2 abcd_state) \<noteq> []
   \<and> valid_index (removeFromQueue 2 abcd_state)
   \<and> queueIndex (removeFromQueue 2 abcd_state) = 2
   \<and> playing_item (removeFromQueue 2 abcd_state) = queued ''D'' 4
   \<and> playing_item (reorderQueue 0 3 abcd_state) = queued ''C'' 3
   \<and> queueIndex (reorderQueue 0 3 abcd_state) = 1"
  using queueIndex_follows_playing_item [of abcd_state 2 0 3 "new_track ''E'' 4"]
  by (simp add: abcd_state_def valid_index_def removeFromQueue_def reorderQueue_def
     splice_remove_def splice_insert_def relative_index_def playing_item_def js_index_def Let_def initial_state_def)


text \<open>
  Claim C10. \<open>removeFromQueue\<close> and \<open>reorderQueue\<close> write \<open>queue\<close> and \<open>queueIndex\<close> only:
  the current track, the playing flag, the shuffle and loop flags and the audio element
  (its source, position and paused flag) are as before, for every argument and so also
  when the playing item itself is removed.
\<close>

theorem queue_edits_leave_playback:
  "currentTrack (removeFromQueue i s) = currentTrack s
   \<and> isPlaying (removeFromQueue i s) = isPlaying s
   \<and> shuffle (removeFromQueue i s) = shuffle s
   \<and> loop (removeFromQueue i s) = loop s
   \<and> audio (removeFromQueue i s) = audio s
   \<and> currentTrack (reorderQueue fromIndex toIndex s) = currentTrack s
   \<and> isPlaying (reorderQueue fromIndex toIndex s) = isPlaying s
   \<and> shuffle (reorderQueue fromIndex toIndex s) = shuffle s
   \<and> loop (reorderQueue fromIndex toIndex s) = loop s
   \<and> audio (reorderQueue fromIndex toIndex s) = audio s"
  by (simp add: removeFromQueue_def reorderQueue_def Let_def split_def)

subsection \<open>Populating the queue from a playlist\<close>


lemma increment_funpow_exact:
  "c + int n \<le> 2 ^ 53 \<Longrightarrow> (increment ^^ n) c = c + int n"
  by (induction n) (simp_all add: increment_def)

lemma newTracks_map:
  "newTracks i c ts =
     map (\<lambda>j. Some ((spread (ts ! j))\<lparr>originalIndex := Some (i + int j),
                                     item_id := Some ((increment ^^ Suc j) c)\<rparr>)) [0..<length ts]"
proof (induction ts arbitrary: i c)
  case Nil
  then show ?case by simp
next
  case (Cons t ts)
  have "\<And>j. (increment ^^ Suc j) (increment c) = (increment ^^ Suc (Suc j)) c"
    by (simp only: funpow_Suc_right comp_apply)
  then show ?case
    by (simp only: newTracks.simps Cons.IH length_Cons map_upt_Suc)
       (simp add: algebra_simps)
qed

lemma length_newTracks: "length (newTracks i c ts) = length ts"
  by (simp add: newTracks_map)

lemma addPlaylistToQueue_rotation:
  assumes "\<not> shuffle s" and "0 \<le> startIndex" and "startIndex < int (length ts)"
  shows "queue (addPlaylistToQueue rnd ts startIndex s) =
           map (\<lambda>j. Some ((spread (ts ! j))\<lparr>originalIndex := Some (int j),
                    item_id := Some ((increment ^^ Suc j) (queueIdCounter s))\<rparr>))
               ([nat startIndex..<length ts] @ [0..<nat startIndex])"
  using assms
  by (simp add: addPlaylistToQueue_def Let_def slice_from_def slice_def relative_index_def
      newTracks_map drop_map take_map min_def del: funpow.simps flip: map_append)

text \<open>
  Claim C3. With shuffle off and a start index inside the track list,
  \<open>addPlaylistToQueue\<close> sets the queue to the tracks from the start index to the end
  followed by the tracks before it, each a copy of its track with \<open>originalIndex\<close> its
  position \<open>j\<close> in the list and the id the counter reaches for it, which is the counter
  after \<open>j + 1\<close> increments and so the counter's old value plus \<open>j + 1\<close> as long as the
  counter stays within \<open>2^53\<close>; and it sets \<open>queueIndex\<close> to 0. The list \<open>[A, B, C, D]\<close>
  with start index 2 gives \<open>[C, D, A, B]\<close>.
\<close>

theorem addPlaylistToQueue_rotates:
  assumes "\<not> shuffle s" and "0 \<le> startIndex" and "startIndex < int (length ts)"
  shows "queue (addPlaylistToQueue rnd ts startIndex s) =
           map (\<lambda>j. Some ((spread (ts ! j))\<lparr>originalIndex := Some (int j),
                    item_id := Some ((increment ^^ Suc j) (queueIdCounter s))\<rparr>))
               ([nat startIndex..<length ts] @ [0..<nat startIndex])
         \<and> queueIndex (addPlaylistToQueue rnd ts startIndex s) = 0
         \<and> (queueIdCounter s + int (length ts) \<le> 2 ^ 53 \<longrightarrow>
              queue (addPlaylistToQueue rnd ts startIndex s) =
                map (\<lambda>j. Some ((spread (ts ! j))\<lparr>originalIndex := Some (int j),
                         item_id := Some (queueIdCounter s + 1 + int j)\<rparr>))
                    ([nat startIndex..<length ts] @ [0..<nat startIndex]))"
proof -
  have "queueIdCounter s + int (length ts) \<le> 2 ^ 53 \<Longrightarrow>
     map (\<lambda>j. Some ((spread (ts ! j))\<lparr>originalIndex := Some (int j),
                    item_id := Some ((increment ^^ Suc j) (queueIdCounter s))\<rparr>))
               ([nat startIndex..<length ts] @ [0..<nat startIndex])
     = map (\<lambda>j. Some ((spread (ts ! j))\<lparr>originalIndex := Some (int j),
                         item_id := Some (queueIdCounter s + 1 + int j)\<rparr>))
                    ([nat startIndex..<length ts] @ [0..<nat startIndex])"
  proof (rule map_cong[OF refl])
    fix j
    assume b: "queueIdCounter s + int (length ts) \<le> 2 ^ 53"
      and "j \<in> set ([nat startIndex..<length ts] @ [0..<nat startIndex])"
    then have "j < length ts" using assms(3) by auto
    with b have "queueIdCounter s + int (Suc j) \<le> 2 ^ 53" by simp
    from increment_funpow_exact[OF this]
    show "Some ((spread (ts ! j))\<lparr>originalIndex := Some (int j),
                    item_id := Some ((increment ^^ Suc j) (queueIdCounter s))\<rparr>)
        = Some ((spread (ts ! j))\<lparr>originalIndex := Some (int j),
                         item_id := Some (queueIdCounter s + 1 + int j)\<rparr>)"
      by (simp only:) (simp add: algebra_simps)
  qed
  moreover have "queueIndex (addPlaylistToQueue rnd ts startIndex s) = 0"
    by (simp add: addPlaylistToQueue_def Let_def)
  ultimately show ?thesis
    using addPlaylistToQueue_rotation[OF assms, of rnd] by (simp only:) simp
qed

theorem addPlaylistToQueue_rotates_witness:
  "\<not> shuffle initial_state \<and> (0::int) \<le> 2 \<and> 2 < int (length abcd_tracks)
   \<and> queueIdCounter initial_state + int (length abcd_tracks) \<le> 2 ^ 53
   \<and> map (\<lambda>e. title (spread e)) (queue (addPlaylistToQueue (\<lambda>i. 0) abcd_tracks 2 initial_state))
        = [Some ''C'', Some ''D'', Some ''A'', Some ''B'']
   \<and> map (\<lambda>e. item_id (spread e)) (queue (addPlaylistToQueue (\<lambda>i. 0) abcd_tracks 2 initial_state))
        = [Some 3, Some 4, Some 1, Some 2]
   \<and> map (\<lambda>e. originalIndex (spread e)) (queue (addPlaylistToQueue (\<lambda>i. 0) abcd_tracks 2 initial_state))
        = [Some 2, Some 3, Some 0, Some 1]
   \<and> queueIndex (addPlaylistToQueue (\<lambda>i. 0) abcd_tracks 2 initial_state) = 0"
proof -
  have h: "\<not> shuffle initial_state" "(0::int) \<le> 2" "2 < int (length abcd_tracks)"
    and b: "queueIdCounter initial_state + int (length abcd_tracks) \<le> 2 ^ 53"
    by (simp_all add: initial_state_def abcd_tracks_def)
  from addPlaylistToQueue_rotates[OF h, of "\<lambda>i. 0"] b
  have "queue (addPlaylistToQueue (\<lambda>i. 0) abcd_tracks 2 initial_state) =
          map (\<lambda>j. Some ((spread (abcd_tracks ! j))\<lparr>originalIndex := Some (int j),
                   item_id := Some (queueIdCounter initial_state + 1 + int j)\<rparr>))
              ([nat 2..<length abcd_tracks] @ [0..<nat 2])"
    and "queueIndex (addPlaylistToQueue (\<lambda>i. 0) abcd_tracks 2 initial_state) = 0"
    by blast+
  then show ?thesis
    using h b
    by (simp add: initial_state_def abcd_tracks_def new_track_def spread_def empty_object_def upt_rec)
qed

subsection \<open>Shuffle\<close>

text \<open>
  \<^verbatim>\<open>Math.random()\<close> returns a number in \<open>[0, 1)\<close>, so the index drawn in iteration \<open>i\<close> lies
  in \<open>0..i\<close> and the swap exchanges two elements of the array.
\<close>

lemma random_index_bounds:
  fixes u :: real
  assumes "0 \<le> u" "u < 1"
  shows "0 \<le> \<lfloor>u * real_of_int (int (Suc k) + 1)\<rfloor>"
    and "\<lfloor>u * real_of_int (int (Suc k) + 1)\<rfloor> \<le> int (Suc k)"
proof -
  show "0 \<le> \<lfloor>u * real_of_int (int (Suc k) + 1)\<rfloor>"
    using assms(1) by simp
  have "u * real_of_int (int (Suc k) + 1) < 1 * real_of_int (int (Suc k) + 1)"
    using assms(2) by (intro mult_strict_right_mono) simp_all
  then have "\<lfloor>u * real_of_int (int (Suc k) + 1)\<rfloor> < int (Suc k) + 1"
    by (simp add: floor_less_iff)
  then show "\<lfloor>u * real_of_int (int (Suc k) + 1)\<rfloor> \<le> int (Suc k)" by simp
qed

lemma swap_in_range:
  assumes "i < length arr" "j < length arr"
  shows "js_set (js_set arr (int i) (js_index arr (int j))) (int j) (js_index arr (int i))
           = arr[i := arr ! j, j := arr ! i]"
  using assms by (simp add: js_set_def js_index_def)

lemma shuffle_loop_mset:
  assumes "\<forall>i. 0 \<le> rnd i \<and> rnd i < 1" "k < length arr"
  shows "mset (shuffle_loop rnd k arr) = mset arr \<and> length (shuffle_loop rnd k arr) = length arr"
  using assms(2)
proof (induction k arbitrary: arr)
  case 0
  then show ?case by simp
next
  case (Suc k)
  define j where "j = \<lfloor>rnd (Suc k) * real_of_int (int (Suc k) + 1)\<rfloor>"
  have "0 \<le> j" "j \<le> int (Suc k)"
    using random_index_bounds[of "rnd (Suc k)" k] assms(1) by (simp_all add: j_def)
  then obtain j' where j': "j = int j'" "j' \<le> Suc k"
    by (auto elim: nonneg_int_cases)
  have jl: "j' < length arr" using j' Suc.prems by simp
  define arr' where "arr' = arr[Suc k := arr ! j', j' := arr ! Suc k]"
  have "shuffle_loop rnd (Suc k) arr
      = shuffle_loop rnd k (js_set (js_set arr (int (Suc k)) (js_index arr j)) j
                              (js_index arr (int (Suc k))))"
    unfolding j_def by (simp only: shuffle_loop.simps Let_def)
  then have step: "shuffle_loop rnd (Suc k) arr = shuffle_loop rnd k arr'"
    unfolding j'(1) arr'_def by (simp only: swap_in_range[OF Suc.prems jl])
  have "mset arr' = mset arr" "length arr' = length arr"
    using mset_swap[OF jl Suc.prems] by (simp_all add: arr'_def)
  moreover have "k < length arr'" using Suc.prems by (simp add: arr'_def)
  ultimately show ?case
    using Suc.IH[of arr'] by (simp only: step)
qed

lemma shuffleArray_mset:
  assumes "\<forall>i. 0 \<le> rnd i \<and> rnd i < 1"
  shows "mset (shuffleArray rnd arr) = mset arr" and "length (shuffleArray rnd arr) = length arr"
proof -
  have "mset (shuffleArray rnd arr) = mset arr \<and> length (shuffleArray rnd arr) = length arr"
  proof (cases arr)
    case Nil
    then show ?thesis by (simp add: shuffleArray_def)
  next
    case (Cons a as)
    then have "length arr - 1 < length arr" by simp
    from shuffle_loop_mset[OF assms this] show ?thesis by (simp add: shuffleArray_def)
  qed
  then show "mset (shuffleArray rnd arr) = mset arr" and "length (shuffleArray rnd arr) = length arr"
    by simp_all
qed


lemma mset_without_nth:
  assumes "k < length q"
  shows "mset (take k q @ drop (Suc k) q) = mset q - {#q ! k#}"
proof -
  have "mset q = mset (take k q @ q ! k # drop (Suc k) q)"
    using assms by (simp only: id_take_nth_drop[symmetric])
  then show ?thesis by simp
qed

lemma toggleShuffle_queue:
  assumes "\<not> shuffle s" "length (queue s) > 1" "queueIndex s = int k" "k < length (queue s)"
  shows "toggleShuffle rnd s = s\<lparr>shuffle := True,
           queue := (queue s ! k) # shuffleArray rnd (take k (queue s) @ drop (Suc k) (queue s)),
           queueIndex := 0\<rparr>"
  using assms
  by (simp add: toggleShuffle_def Let_def js_index_def slice_def slice_from_def
      relative_index_def min_def nat_add_distrib)

text \<open>
  Claim C4. With shuffle off, more than one item in the queue and a valid \<open>queueIndex\<close>,
  \<open>toggleShuffle\<close> sets the shuffle flag, puts the item that was at \<open>queueIndex\<close> first,
  lets the other items follow in some order (as a multiset they are the old queue without
  that item), sets \<open>queueIndex\<close> to 0 and keeps the length of the queue. The draws of
  \<^verbatim>\<open>Math.random()\<close> are any numbers in \<open>[0, 1)\<close>.
\<close>

theorem toggleShuffle_pins_playing_item:
  assumes "\<not> shuffle s" and "length (queue s) > 1" and "valid_index s"
    and "\<forall>i. 0 \<le> rnd i \<and> rnd i < 1"
  shows "shuffle (toggleShuffle rnd s)
       \<and> queue (toggleShuffle rnd s) \<noteq> []
       \<and> hd (queue (toggleShuffle rnd s)) = playing_item s
       \<and> mset (tl (queue (toggleShuffle rnd s))) = mset (queue s) - {#playing_item s#}
       \<and> set (queue (toggleShuffle rnd s)) = set (queue s)
       \<and> queueIndex (toggleShuffle rnd s) = 0
       \<and> length (queue (toggleShuffle rnd s)) = length (queue s)"
proof -
  obtain k where k: "queueIndex s = int k" "k < length (queue s)"
    using assms(3) by (auto simp: valid_index_def elim: nonneg_int_cases)
  let ?rest = "take k (queue s) @ drop (Suc k) (queue s)"
  note T = toggleShuffle_queue[OF assms(1,2) k, of rnd]
  have p: "playing_item s = queue s ! k"
    using k by (simp add: playing_item_def js_index_def)
  have m: "mset (shuffleArray rnd ?rest) = mset (queue s) - {#queue s ! k#}"
    using shuffleArray_mset(1)[OF assms(4), of ?rest] mset_without_nth[OF k(2)] by simp
  have l: "length (shuffleArray rnd ?rest) = length (queue s) - 1"
    using shuffleArray_mset(2)[OF assms(4), of ?rest] k(2) by simp
  have "mset (queue (toggleShuffle rnd s)) = mset (queue s)"
    using m k(2) by (simp add: T)
  then have "set (queue (toggleShuffle rnd s)) = set (queue s)"
    by (rule mset_eq_setD)
  then show ?thesis
    using m l assms(2) by (simp add: T p)
qed

theorem toggleShuffle_pins_playing_item_witness:
  "\<not> shuffle abcd_state \<and> length (queue abcd_state) > 1 \<and> valid_index abcd_state
   \<and> (\<forall>i::nat. (0::real) \<le> 1 / 2 \<and> (1::real) / 2 < 1)
   \<and> shuffle (toggleShuffle (\<lambda>i. 1 / 2) abcd_state)
   \<and> hd (queue (toggleShuffle (\<lambda>i. 1 / 2) abcd_state)) = queued ''C'' 3
   \<and> mset (tl (queue (toggleShuffle (\<lambda>i. 1 / 2) abcd_state)))
        = {#queued ''A'' 1, queued ''B'' 2, queued ''D'' 4#}
   \<and> queueIndex (toggleShuffle (\<lambda>i. 1 / 2) abcd_state) = 0
   \<and> length (queue (toggleShuffle (\<lambda>i. 1 / 2) abcd_state)) = 4"
  using toggleShuffle_pins_playing_item [of abcd_state "\<lambda>i. 1 / 2"]
  by (simp add: abcd_state_def initial_state_def valid_index_def playing_item_def js_index_def
      queued_def new_track_def empty_object_def)

text \<open>The example run to the end, every draw of \<^verbatim>\<open>Math.random()\<close> being 0.5.\<close>

lemma toggleShuffle_example:
  "queue (toggleShuffle (\<lambda>i. 1 / 2) abcd_state)
     = [queued ''C'' 3, queued ''A'' 1, queued ''D'' 4, queued ''B'' 2]"
  by (simp add: abcd_state_def initial_state_def toggleShuffle_def Let_def js_index_def slice_def
      slice_from_def relative_index_def shuffleArray_def js_set_def eval_nat_numeral)


subsection \<open>Queue item ids\<close>





























lemma mset_rotation: "mset (slice_from xs i @ slice xs 0 i) = mset xs"
proof -
  define k where "k = relative_index i (length xs)"
  have "slice xs 0 i = take k xs"
    by (simp add: slice_def relative_index_def Let_def k_def)
  then have "mset (slice_from xs i @ slice xs 0 i) = mset (drop k xs) + mset (take k xs)"
    by (simp add: slice_from_def k_def)
  also have "\<dots> = mset (take k xs) + mset (drop k xs)"
    by (rule add.commute)
  also have "\<dots> = mset (take k xs @ drop k xs)"
    by (simp only: mset_append)
  also have "\<dots> = mset xs"
    by (simp only: append_take_drop_id)
  finally show ?thesis .
qed

lemma addPlaylistToQueue_queues_created:
  assumes "\<not> shuffle s"
  shows "mset (queue (addPlaylistToQueue rnd ts i s))
           = mset (created (AddPlaylistToQueue rnd ts i) s)"
  using assms by (simp add: addPlaylistToQueue_def Let_def mset_rotation del: mset_append)

lemma filter_not_index_past: "k < j \<Longrightarrow> filter_not_index j k xs = xs"
  by (induction xs arbitrary: j) simp_all

lemma mset_filter_not_index:
  assumes "j \<le> k" "k < j + int (length xs)"
  shows "add_mset (xs ! nat (k - j)) (mset (filter_not_index j k xs)) = mset xs"
  using assms
proof (induction xs arbitrary: j)
  case Nil
  then show ?case by simp
next
  case (Cons x xs)
  show ?case
  proof (cases "j = k")
    case True
    then show ?thesis by (simp add: filter_not_index_past)
  next
    case False
    then have "j + 1 \<le> k" "k < j + 1 + int (length xs)" using Cons.prems by simp_all
    from Cons.IH[OF this] False Cons.prems(1)
    have "add_mset (xs ! nat (k - (j + 1))) (mset (filter_not_index (j + 1) k xs)) = mset xs"
      by simp
    moreover have "nat (k - j) = Suc (nat (k - (j + 1)))"
      using False Cons.prems(1) by simp
    then have "(x # xs) ! nat (k - j) = xs ! nat (k - (j + 1))"
      by (simp only: nth_Cons_Suc)
    ultimately show ?thesis using False by simp
  qed
qed

lemma addPlaylistToQueue_queues_created_shuffled:
  assumes "shuffle s" and "\<forall>i. 0 \<le> rnd i \<and> rnd i < 1"
    and "0 \<le> i" and "i < int (length ts)"
  shows "mset (queue (addPlaylistToQueue rnd ts i s))
           = mset (created (AddPlaylistToQueue rnd ts i) s)"
proof -
  define new where "new = newTracks 0 (queueIdCounter s) ts"
  have l: "i < 0 + int (length new)" using assms(4) by (simp add: new_def length_newTracks)
  have "queue (addPlaylistToQueue rnd ts i s)
      = new ! nat i # shuffleArray rnd (filter_not_index 0 i new)"
    using assms(1,3) l by (simp add: addPlaylistToQueue_def Let_def js_index_def new_def)
  then have "mset (queue (addPlaylistToQueue rnd ts i s))
      = add_mset (new ! nat (i - 0)) (mset (filter_not_index 0 i new))"
    by (simp add: shuffleArray_mset(1)[OF assms(2)])
  also have "\<dots> = mset new"
    using assms(3) l by (intro mset_filter_not_index) simp_all
  finally show ?thesis by (simp add: new_def)
qed


lemma run_append: "run (xs @ ys) s = run ys (run xs s)"
  by (induction xs arbitrary: s) simp_all








subsection \<open>Skipping forward and back\<close>

lemma playFromQueue_in_range:
  assumes "0 \<le> i" "i < int (length (queue s))"
  shows "queueIndex (fst (playFromQueue i s)) = i"
    and "queue (fst (playFromQueue i s)) = queue s"
    and "loop (fst (playFromQueue i s)) = loop s"
    and "isPlaying (fst (playFromQueue i s)) = isPlaying s"
    and "currentTrack (fst (playFromQueue i s))
           = Some ((spread (queue s ! nat i))\<lparr>peaks := None, duration := Some 0\<rparr>)"
    and "queue s ! nat i \<noteq> None \<Longrightarrow> \<not> paused (audio (fst (playFromQueue i s)))"
  using assms
  by (auto simp add: playFromQueue_def Let_def js_index_def audio_play_def set_src_def
      split: option.splits)

lemma playNext_advance:
  assumes "queueIndex s = int k" "Suc k < length (queue s)"
  shows "fst (playNext s) = fst (playFromQueue (int (Suc k)) s)"
  using assms by (auto simp add: playNext_def Let_def add.commute)

lemma playNext_end:
  assumes "queueIndex s = int k" "Suc k = length (queue s)" "\<not> loop s"
  shows "fst (playNext s) = s\<lparr>audio := audio_pause (audio s), isPlaying := False\<rparr>"
  using assms by (auto simp add: playNext_def Let_def)

lemma playNext_times_before_end:
  assumes "queueIndex s = 0" "\<not> loop s" "k < length (queue s)"
  shows "queueIndex (playNext_times k s) = int k
       \<and> queue (playNext_times k s) = queue s
       \<and> loop (playNext_times k s) = loop s
       \<and> isPlaying (playNext_times k s) = isPlaying s"
  using assms(3)
proof (induction k)
  case 0
  then show ?case using assms by simp
next
  case (Suc k)
  then have IH: "queueIndex (playNext_times k s) = int k"
    "queue (playNext_times k s) = queue s" "loop (playNext_times k s) = loop s"
    "isPlaying (playNext_times k s) = isPlaying s"
    by simp_all
  have r: "0 \<le> int (Suc k)" "int (Suc k) < int (length (queue (playNext_times k s)))"
    using Suc.prems IH by simp_all
  have "fst (playNext (playNext_times k s)) = fst (playFromQueue (int (Suc k)) (playNext_times k s))"
    using IH Suc.prems by (intro playNext_advance) simp_all
  then show ?case
    using playFromQueue_in_range(1-4)[OF r] IH by simp
qed

lemma playNext_times_track:
  assumes "queueIndex s = 0" "\<not> loop s" "0 < k" "k < length (queue s)"
  shows "currentTrack (playNext_times k s)
           = Some ((spread (queue s ! k))\<lparr>peaks := None, duration := Some 0\<rparr>)"
    and "queue s ! k \<noteq> None \<Longrightarrow> \<not> paused (audio (playNext_times k s))"
proof -
  obtain j where k: "k = Suc j" using assms(3) by (cases k) auto
  have B: "queueIndex (playNext_times j s) = int j" "queue (playNext_times j s) = queue s"
    using playNext_times_before_end[OF assms(1,2), of j] assms(4) k by simp_all
  have r: "0 \<le> int (Suc j)" "int (Suc j) < int (length (queue (playNext_times j s)))"
    using assms(4) k B by simp_all
  have P: "fst (playNext (playNext_times j s)) = fst (playFromQueue (int (Suc j)) (playNext_times j s))"
    using B assms(4) k by (simp add: playNext_advance)
  show "currentTrack (playNext_times k s)
           = Some ((spread (queue s ! k))\<lparr>peaks := None, duration := Some 0\<rparr>)"
    using playFromQueue_in_range(5)[OF r, unfolded nat_int] P B by (simp add: k del: of_nat_Suc)
  show "queue s ! k \<noteq> None \<Longrightarrow> \<not> paused (audio (playNext_times k s))"
    using playFromQueue_in_range(6)[OF r, unfolded nat_int] P B by (simp add: k del: of_nat_Suc)
qed

lemma playNext_times_end:
  assumes "queueIndex s = 0" "\<not> loop s" "queue s \<noteq> []"
  shows "fst (playNext (playNext_times (length (queue s) - 1) s))
     = (playNext_times (length (queue s) - 1) s)
          \<lparr>audio := audio_pause (audio (playNext_times (length (queue s) - 1) s)),
           isPlaying := False\<rparr>"
proof -
  have "length (queue s) - 1 < length (queue s)" using assms(3) by simp
  from playNext_times_before_end[OF assms(1,2) this]
  show ?thesis using assms(2,3) by (intro playNext_end[where k="length (queue s) - 1"]) simp_all
qed

lemma playNext_times_stopped:
  assumes "queueIndex s = 0" "\<not> loop s" "queue s \<noteq> []"
  shows "playNext_times (length (queue s)) s
     = (playNext_times (length (queue s) - 1) s)
          \<lparr>audio := audio_pause (audio (playNext_times (length (queue s) - 1) s)),
           isPlaying := False\<rparr>"
proof -
  obtain n where n: "length (queue s) = Suc n" using assms(3) by (cases "queue s") auto
  show ?thesis using playNext_times_end[OF assms] by (simp add: n)
qed

lemma playNext_at_end:
  assumes "queueIndex s = 0" "\<not> loop s" "queue s \<noteq> []"
  shows "fst (playNext (playNext_times (length (queue s)) s)) = playNext_times (length (queue s)) s"
proof -
  have "length (queue s) - 1 < length (queue s)" using assms(3) by simp
  from playNext_times_before_end[OF assms(1,2) this]
  have B: "queueIndex (playNext_times (length (queue s) - 1) s) = int (length (queue s) - 1)"
     "queue (playNext_times (length (queue s) - 1) s) = queue s"
     "loop (playNext_times (length (queue s) - 1) s) = loop s" by simp_all
  show ?thesis
    unfolding playNext_times_stopped[OF assms]
    using B assms(2,3)
    by (subst playNext_end[where k="length (queue s) - 1"]) (simp_all add: audio_pause_def)
qed

lemma playNext_times_after_end:
  assumes "queueIndex s = 0" "\<not> loop s" "queue s \<noteq> []"
  shows "playNext_times (length (queue s) + m) s = playNext_times (length (queue s)) s"
proof (induction m)
  case 0
  then show ?case by simp
next
  case (Suc m)
  then show ?case by (simp add: playNext_at_end[OF assms])
qed

text \<open>
  Claim C5. With loop off, a non-empty queue of length \<open>N\<close> and \<open>queueIndex\<close> 0, the first
  \<open>N - 1\<close> calls of \<open>playNext\<close> move \<open>queueIndex\<close> through \<open>1, ..., N - 1\<close>, load the item at
  the new index as the current track and start the audio element, and leave \<open>isPlaying\<close>
  and the queue alone; the \<open>N\<close>th call pauses the audio element and sets \<open>isPlaying\<close> to
  false while the current track, the queue and \<open>queueIndex\<close> stay as they were; every
  further call leaves the whole state unchanged.
\<close>

theorem playNext_stops_at_end_of_queue:
  assumes "\<not> loop s" and "queue s \<noteq> []" and "queueIndex s = 0"
  shows "(\<forall>k < length (queue s).
            queueIndex (playNext_times k s) = int k
          \<and> queue (playNext_times k s) = queue s
          \<and> isPlaying (playNext_times k s) = isPlaying s
          \<and> (0 < k \<longrightarrow> currentTrack (playNext_times k s)
                 = Some ((spread (queue s ! k))\<lparr>peaks := None, duration := Some 0\<rparr>))
          \<and> (0 < k \<and> queue s ! k \<noteq> None \<longrightarrow> \<not> paused (audio (playNext_times k s))))
       \<and> \<not> isPlaying (playNext_times (length (queue s)) s)
       \<and> paused (audio (playNext_times (length (queue s)) s))
       \<and> currentTrack (playNext_times (length (queue s)) s)
            = currentTrack (playNext_times (length (queue s) - 1) s)
       \<and> queue (playNext_times (length (queue s)) s) = queue s
       \<and> queueIndex (playNext_times (length (queue s)) s) = int (length (queue s)) - 1
       \<and> (\<forall>m. playNext_times (length (queue s) + m) s = playNext_times (length (queue s)) s)"
proof -
  note a = assms(3) assms(1)
  have last: "length (queue s) - 1 < length (queue s)" using assms(2) by simp
  have "\<forall>k < length (queue s).
            queueIndex (playNext_times k s) = int k
          \<and> queue (playNext_times k s) = queue s
          \<and> isPlaying (playNext_times k s) = isPlaying s
          \<and> (0 < k \<longrightarrow> currentTrack (playNext_times k s)
                 = Some ((spread (queue s ! k))\<lparr>peaks := None, duration := Some 0\<rparr>))
          \<and> (0 < k \<and> queue s ! k \<noteq> None \<longrightarrow> \<not> paused (audio (playNext_times k s)))"
    using playNext_times_before_end[OF a] playNext_times_track(1,2)[OF a] by blast
  moreover have "\<not> isPlaying (playNext_times (length (queue s)) s)"
    and "paused (audio (playNext_times (length (queue s)) s))"
    and "currentTrack (playNext_times (length (queue s)) s)
            = currentTrack (playNext_times (length (queue s) - 1) s)"
    by (simp_all add: playNext_times_stopped[OF a assms(2)] audio_pause_def)
  moreover have "queue (playNext_times (length (queue s)) s) = queue s"
    and "queueIndex (playNext_times (length (queue s)) s) = int (length (queue s)) - 1"
    using playNext_times_before_end[OF a last] assms(2)
    by (simp_all add: playNext_times_stopped[OF a assms(2)] of_nat_diff Suc_leI)
  moreover have "\<forall>m. playNext_times (length (queue s) + m) s = playNext_times (length (queue s)) s"
    using playNext_times_after_end[OF a assms(2)] by blast
  ultimately show ?thesis by blast
qed

theorem playNext_stops_at_end_of_queue_witness:
  "\<not> loop (abcd_state\<lparr>queueIndex := 0\<rparr>) \<and> queue (abcd_state\<lparr>queueIndex := 0\<rparr>) \<noteq> []
   \<and> queueIndex (abcd_state\<lparr>queueIndex := 0\<rparr>) = 0
   \<and> queueIndex (playNext_times 3 (abcd_state\<lparr>queueIndex := 0\<rparr>)) = 3
   \<and> \<not> paused (audio (playNext_times 3 (abcd_state\<lparr>queueIndex := 0\<rparr>)))
   \<and> currentTrack (playNext_times 4 (abcd_state\<lparr>queueIndex := 0\<rparr>))
        = Some ((spread (queued ''D'' 4))\<lparr>peaks := None, duration := Some 0\<rparr>)
   \<and> \<not> isPlaying (playNext_times 4 (abcd_state\<lparr>queueIndex := 0\<rparr>))
   \<and> queueIndex (playNext_times 4 (abcd_state\<lparr>queueIndex := 0\<rparr>)) = 3
   \<and> playNext_times 6 (abcd_state\<lparr>queueIndex := 0\<rparr>) = playNext_times 4 (abcd_state\<lparr>queueIndex := 0\<rparr>)"
proof -
  let ?s = "abcd_state\<lparr>queueIndex := 0\<rparr>"
  have h: "\<not> loop ?s" "queue ?s \<noteq> []" "queueIndex ?s = 0" and n: "length (queue ?s) = 4"
    and q3: "queue ?s ! 3 = queued ''D'' 4" "queue ?s ! 3 \<noteq> None"
    by (simp_all add: abcd_state_def initial_state_def queued_def)
  from playNext_stops_at_end_of_queue[OF h]
  have A: "\<forall>k<4. queueIndex (playNext_times k ?s) = int k
          \<and> queue (playNext_times k ?s) = queue ?s
          \<and> isPlaying (playNext_times k ?s) = isPlaying ?s
          \<and> (0 < k \<longrightarrow> currentTrack (playNext_times k ?s)
                 = Some ((spread (queue ?s ! k))\<lparr>peaks := None, duration := Some 0\<rparr>))
          \<and> (0 < k \<and> queue ?s ! k \<noteq> None \<longrightarrow> \<not> paused (audio (playNext_times k ?s)))"
    and B: "\<not> isPlaying (playNext_times 4 ?s)"
      "currentTrack (playNext_times 4 ?s) = currentTrack (playNext_times 3 ?s)"
      "queueIndex (playNext_times 4 ?s) = 3"
    and C: "\<forall>m. playNext_times (4 + m) ?s = playNext_times 4 ?s"
    unfolding n by simp_all
  from A have A3: "queueIndex (playNext_times 3 ?s) = 3"
    "currentTrack (playNext_times 3 ?s) = Some ((spread (queue ?s ! 3))\<lparr>peaks := None, duration := Some 0\<rparr>)"
    "\<not> paused (audio (playNext_times 3 ?s))"
    using q3(2) by (auto dest: spec[where x=3])
  from C have "playNext_times (4 + 2) ?s = playNext_times 4 ?s" by blast
  then have C2: "playNext_times 6 ?s = playNext_times 4 ?s" by simp
  show ?thesis
    using h A3 B C2 q3(1) by simp
qed


lemma emptied_queue_state_eq:
  "emptied_queue_state = initial_state\<lparr>
     audio := \<lparr>audio_src = Some ''a.mp3'', currentTime = 5, audio_duration = Some 200, paused = False\<rparr>,
     currentTrack := Some (track_a\<lparr>playlistId := Some ''p'', sourceRoute := Some ''/'',
                             peaks := None, duration := Some 0\<rparr>),
     isPlaying := True, miniPlayerVisible := True,
     playlists := [''p'' \<mapsto> [Some track_a]], queueIdCounter := 1\<rparr>"
  by (simp add: emptied_queue_state_def initial_state_def initial_audio_def registerPlaylist_def
      playTrack_def addPlaylistToQueue_def removeFromQueue_def on_play_def spread_def set_src_def
      updateMiniPlayer_def increment_def
      audio_play_def splice_remove_def relative_index_def track_a_def new_track_def Let_def
      slice_from_def slice_def)

text \<open>
  Claim C6, as the code has it. \<open>playPrev\<close> first returns when the queue is empty, and then
  does nothing at all. With a non-empty queue: more than 3 seconds into the track it sets
  the position to 0 and changes nothing else; otherwise it moves \<open>queueIndex\<close> one back
  when \<open>0 < queueIndex \<le> queue.length\<close> (every valid index but 0), moves it to the last
  index when it is 0 and loop is set, and sets the position to 0, changing nothing
  else, when it is 0 and loop is not set.
\<close>

theorem playPrev_restart_or_step_back:
  "(queue s = [] \<longrightarrow> playPrev s = (s, None))
   \<and> (queue s \<noteq> [] \<and> currentTime (audio s) > 3 \<longrightarrow>
        playPrev s = (s\<lparr>audio := (audio s)\<lparr>currentTime := 0\<rparr>\<rparr>, None))
   \<and> (queue s \<noteq> [] \<and> currentTime (audio s) \<le> 3
        \<and> 0 < queueIndex s \<and> queueIndex s \<le> int (length (queue s)) \<longrightarrow>
        queueIndex (fst (playPrev s)) = queueIndex s - 1)
   \<and> (queue s \<noteq> [] \<and> currentTime (audio s) \<le> 3 \<and> queueIndex s = 0 \<and> loop s \<longrightarrow>
        queueIndex (fst (playPrev s)) = int (length (queue s)) - 1)
   \<and> (queue s \<noteq> [] \<and> currentTime (audio s) \<le> 3 \<and> queueIndex s = 0 \<and> \<not> loop s \<longrightarrow>
        playPrev s = (s\<lparr>audio := (audio s)\<lparr>currentTime := 0\<rparr>\<rparr>, None))"
  by (auto simp add: playPrev_def playFromQueue_def Let_def split: option.splits)

theorem playPrev_restart_or_step_back_witness:
  "queue abcd_state \<noteq> []
   \<and> currentTime (audio (abcd_state\<lparr>audio := (audio abcd_state)\<lparr>currentTime := 5, audio_duration := Some 200\<rparr>\<rparr>)) > 3
   \<and> currentTime (audio (fst (playPrev (abcd_state\<lparr>audio := (audio abcd_state)\<lparr>currentTime := 5, audio_duration := Some 200\<rparr>\<rparr>)))) = 0
   \<and> queueIndex (fst (playPrev (abcd_state\<lparr>audio := (audio abcd_state)\<lparr>currentTime := 5, audio_duration := Some 200\<rparr>\<rparr>))) = 2
   \<and> currentTime (audio abcd_state) \<le> 3 \<and> 0 < queueIndex abcd_state
   \<and> queueIndex abcd_state \<le> int (length (queue abcd_state))
   \<and> queueIndex (fst (playPrev abcd_state)) = 1
   \<and> queueIndex (abcd_state\<lparr>queueIndex := 0, loop := True\<rparr>) = 0
   \<and> loop (abcd_state\<lparr>queueIndex := 0, loop := True\<rparr>)
   \<and> queueIndex (fst (playPrev (abcd_state\<lparr>queueIndex := 0, loop := True\<rparr>))) = 3
   \<and> \<not> loop (abcd_state\<lparr>queueIndex := 0\<rparr>)
   \<and> queueIndex (fst (playPrev (abcd_state\<lparr>queueIndex := 0\<rparr>))) = 0
   \<and> queue emptied_queue_state = []
   \<and> playPrev emptied_queue_state = (emptied_queue_state, None)"
  using playPrev_restart_or_step_back [of "abcd_state\<lparr>audio := (audio abcd_state)\<lparr>currentTime := 5, audio_duration := Some 200\<rparr>\<rparr>"]
    playPrev_restart_or_step_back [of abcd_state]
    playPrev_restart_or_step_back [of "abcd_state\<lparr>queueIndex := 0, loop := True\<rparr>"]
    playPrev_restart_or_step_back [of "abcd_state\<lparr>queueIndex := 0\<rparr>"]
    playPrev_restart_or_step_back [of emptied_queue_state]
  by (simp add: abcd_state_def initial_state_def initial_audio_def emptied_queue_state_eq)

text \<open>
  The claim as the specification words it, that \<open>playPrev\<close> more than 3 seconds into a track
  always sets the position to 0, fails in the state above: the queue is empty, so the
  position stays at 5.
\<close>

theorem playPrev_empty_queue_counterexample:
  "3 < currentTime (audio emptied_queue_state)
   \<and> currentTime (audio (fst (playPrev emptied_queue_state))) = 5
   \<and> currentTime (audio (fst (playPrev emptied_queue_state))) \<noteq> 0"
  by (simp add: emptied_queue_state_eq playPrev_def initial_state_def)


subsection \<open>The snapshot of getState\<close>

text \<open>
  Claim C2, as the code has it. The object \<open>getState\<close> returns holds copies of the
  controller's flags and index, the audio element's position and its duration (0 while
  the duration is unknown), and in its \<open>queue\<close> and \<open>currentTrack\<close> fields the very
  references the controller holds. A store that agrees with the old one on that
  array and that object shows the same controller state, whatever else a caller has
  changed; a push onto the snapshot's queue or an assignment to a field of the snapshot's
  current track changes the array or object the controller reads, and so the
  controller's state.
\<close>

theorem getState_shares_queue_and_track:
  "snap_queue (getState st) = queue st
   \<and> snap_currentTrack (getState st) = currentTrack st
   \<and> snap_isPlaying (getState st) = isPlaying st
   \<and> snap_queueIndex (getState st) = queueIndex st
   \<and> snap_queueExpanded (getState st) = queueExpanded st
   \<and> snap_shuffle (getState st) = shuffle st
   \<and> snap_loop (getState st) = loop st
   \<and> snap_currentTime (getState st) = currentTime (audio st)
   \<and> snap_duration (getState st)
        = (case audio_duration (audio st) of None \<Rightarrow> 0 | Some d \<Rightarrow> d)
   \<and> (arrays h' (queue st) = arrays h (queue st)
        \<and> (\<forall>r. currentTrack st = Some r \<longrightarrow> objects h' r = objects h r)
        \<longrightarrow> controller_of h' st = controller_of h st)
   \<and> (arrays h (queue st) = Some xs \<longrightarrow>
        queue (controller_of (push_through_snapshot (getState st) x h) st) = xs @ [x])
   \<and> (currentTrack st = Some r \<and> objects h r = Some t \<longrightarrow>
        currentTrack (controller_of (rename_through_snapshot (getState st) v h) st)
          = Some (t\<lparr>title := Some v\<rparr>))"
  by (auto simp add: getState_def controller_of_def array_push_def object_set_title_def
      push_through_snapshot_def rename_through_snapshot_def split: option.splits)

theorem getState_shares_queue_and_track_witness:
  "arrays (example_store\<lparr>arrays := (arrays example_store)(7 \<mapsto> [])\<rparr>) (queue example_stored_state)
      = arrays example_store (queue example_stored_state)
   \<and> objects (example_store\<lparr>arrays := (arrays example_store)(7 \<mapsto> [])\<rparr>) 1
      = objects example_store 1
   \<and> controller_of (example_store\<lparr>arrays := (arrays example_store)(7 \<mapsto> [])\<rparr>) example_stored_state
      = controller_of example_store example_stored_state
   \<and> arrays example_store (queue example_stored_state) = Some [queued ''A'' 1, queued ''B'' 2]
   \<and> queue (controller_of (push_through_snapshot (getState example_stored_state) (queued ''X'' 9)
                example_store) example_stored_state)
      = [queued ''A'' 1, queued ''B'' 2] @ [queued ''X'' 9]
   \<and> snap_duration (getState example_stored_state) = 200
   \<and> snap_duration (getState (example_stored_state\<lparr>audio := initial_audio\<rparr>)) = 0
   \<and> currentTrack example_stored_state = Some 1
   \<and> objects example_store 1 = Some (spread (queued ''A'' 1))
   \<and> currentTrack (controller_of (rename_through_snapshot (getState example_stored_state)
                ''renamed'' example_store) example_stored_state)
      = Some ((spread (queued ''A'' 1))\<lparr>title := Some ''renamed''\<rparr>)"
  using getState_shares_queue_and_track [of example_stored_state
      "example_store\<lparr>arrays := (arrays example_store)(7 \<mapsto> [])\<rparr>" example_store
      "[queued ''A'' 1, queued ''B'' 2]" "queued ''X'' 9" 1 "spread (queued ''A'' 1)" "''renamed''"]
    getState_shares_queue_and_track [of "example_stored_state\<lparr>audio := initial_audio\<rparr>"]
  by (simp add: example_store_def example_stored_state_def initial_audio_def)

text \<open>
  The claim as the specification words it, that no mutation of the returned value reaches
  the controller, fails for both shared fields.
\<close>

theorem getState_snapshot_counterexample:
  "queue (controller_of (push_through_snapshot (getState example_stored_state) (queued ''X'' 9)
             example_store) example_stored_state)
     \<noteq> queue (controller_of example_store example_stored_state)
   \<and> currentTrack (controller_of (rename_through_snapshot (getState example_stored_state)
             ''renamed'' example_store) example_stored_state)
     \<noteq> currentTrack (controller_of example_store example_stored_state)"
  by (simp add: example_store_def example_stored_state_def getState_def controller_of_def
      array_push_def object_set_title_def push_through_snapshot_def rename_through_snapshot_def
      queued_def spread_def new_track_def empty_object_def)


subsection \<open>The waveform cache\<close>

lemma online_result:
  "getWaveformData online ''a.mp3'' 2 initial_module
     = (Inr \<lparr>w_peaks = [1, 1 / 4], w_duration = 2\<rparr>,
        \<lparr>audioContext = True,
         waveformCache = [''a.mp3'' \<mapsto> \<lparr>w_peaks = [1, 1 / 4], w_duration = 2\<rparr>],
         calls = [Fetch ''a.mp3'', ArrayBuffer, DecodeAudioData]\<rparr>)"
  by (simp add: getWaveformData_def decode_path_def compute_waveform_def online_def
      initial_module_def getAudioContext_def block_peak_def Let_def upt_rec)

lemma offline_result:
  "getWaveformData offline ''a.mp3'' 2 initial_module
     = (Inr \<lparr>w_peaks = [3 / 10, 3 / 10], w_duration = 0\<rparr>,
        \<lparr>audioContext = True, waveformCache = Map.empty, calls = [Fetch ''a.mp3'']\<rparr>)"
  by (simp add: getWaveformData_def decode_path_def offline_def online_def array_length_def
      initial_module_def getAudioContext_def Let_def eval_nat_numeral)

lemma decode_path_calls: "\<exists>cs. snd (decode_path p source n) = Fetch source # cs"
  by (simp add: decode_path_def split: sum.splits)

lemma getWaveformData_cached:
  "waveformCache w source = Some d \<Longrightarrow> getWaveformData p source n w = (Inr d, w)"
  by (simp add: getWaveformData_def)

lemma getWaveformData_success:
  assumes "waveformCache w source = None" "audioContext w \<or> newAudioContext p = None"
    "decode_path p source n = (Inr d, cs)"
  shows "getWaveformData p source n w
     = (Inr d, w\<lparr>audioContext := True, calls := calls w @ cs,
                  waveformCache := (waveformCache w)(source \<mapsto> d)\<rparr>)"
  using assms by (auto simp add: getWaveformData_def getAudioContext_def Let_def)

lemma getWaveformData_failure:
  assumes "waveformCache w source = None" "audioContext w \<or> newAudioContext p = None"
    "decode_path p source n = (Inl e, cs)"
  shows "getWaveformData p source n w
     = (case array_length n of
          Inl e' \<Rightarrow> Inl e'
        | Inr k \<Rightarrow> Inr \<lparr>w_peaks = replicate k 0.3, w_duration = 0\<rparr>,
        w\<lparr>audioContext := True, calls := calls w @ cs\<rparr>)"
  using assms by (auto simp add: getWaveformData_def getAudioContext_def Let_def split: sum.splits)

lemma getWaveformData_no_context:
  assumes "waveformCache w source = None" "\<not> audioContext w" "newAudioContext p = Some e"
  shows "getWaveformData p source n w = (Inl e, w)"
  using assms by (simp add: getWaveformData_def getAudioContext_def)

text \<open>
  Claim C8, as the code has it. The cache is written only when fetching and decoding
  succeeded. If the source was cached before the first call, or the first call obtained
  the audio context and its fetch and decode succeeded, the first call returns a result,
  and a second call for the same source returns that result and changes nothing: no
  platform call is made, whatever the platform would answer and whatever bar count is
  asked for. If the first call's fetch or decode failed, nothing was cached, and the
  second call starts with another \<^verbatim>\<open>fetch\<close> of the source. If the first call could not
  create the audio context, it threw and left the module state as it was.
\<close>

theorem getWaveformData_caches_successes:
  assumes "getWaveformData p source n w = (r1, w1)"
  shows "(waveformCache w source \<noteq> None
            \<or> (audioContext w \<or> newAudioContext p = None)
              \<and> (\<exists>d. fst (decode_path p source n) = Inr d)
            \<longrightarrow> (\<exists>d. r1 = Inr d) \<and> getWaveformData p' source n' w1 = (r1, w1))
       \<and> (waveformCache w source = None \<and> (audioContext w \<or> newAudioContext p = None)
            \<and> (\<exists>e. fst (decode_path p source n) = Inl e)
            \<longrightarrow> waveformCache w1 source = None
              \<and> (\<exists>cs. calls (snd (getWaveformData p' source n' w1))
                         = calls w1 @ Fetch source # cs))
       \<and> (waveformCache w source = None \<and> \<not> audioContext w \<and> newAudioContext p \<noteq> None
            \<longrightarrow> (\<exists>e. r1 = Inl e) \<and> w1 = w)"
proof -
  have A: "(\<exists>d. r1 = Inr d) \<and> getWaveformData p' source n' w1 = (r1, w1)"
    if a: "waveformCache w source \<noteq> None
            \<or> (audioContext w \<or> newAudioContext p = None)
              \<and> (\<exists>d. fst (decode_path p source n) = Inr d)"
  proof (cases "waveformCache w source")
    case (Some d)
    then show ?thesis
      using assms by (auto simp add: getWaveformData_cached)
  next
    case None
    with a obtain d cs where "audioContext w \<or> newAudioContext p = None"
      "decode_path p source n = (Inr d, cs)"
      by (cases "decode_path p source n") auto
    from getWaveformData_success[OF None this] assms
    show ?thesis by (auto simp add: getWaveformData_cached)
  qed
  have B: "waveformCache w1 source = None
              \<and> (\<exists>cs. calls (snd (getWaveformData p' source n' w1))
                         = calls w1 @ Fetch source # cs)"
    if a: "waveformCache w source = None \<and> (audioContext w \<or> newAudioContext p = None)
            \<and> (\<exists>e. fst (decode_path p source n) = Inl e)"
  proof -
    from a obtain e cs where d: "decode_path p source n = (Inl e, cs)"
      by (cases "decode_path p source n") auto
    from getWaveformData_failure[OF _ _ d] a assms
    have w1: "w1 = w\<lparr>audioContext := True, calls := calls w @ cs\<rparr>" by auto
    then have c: "waveformCache w1 source = None" and x: "audioContext w1" using a by simp_all
    obtain r' cs' where d': "decode_path p' source n' = (r', Fetch source # cs')"
      using decode_path_calls[of p' source n'] by (cases "decode_path p' source n'") auto
    have "calls (snd (getWaveformData p' source n' w1)) = calls w1 @ Fetch source # cs'"
    proof (cases r')
      case (Inl e')
      with d' getWaveformData_failure[OF c _ , of p' n' e' "Fetch source # cs'"] x
      show ?thesis by simp
    next
      case (Inr d'')
      with d' getWaveformData_success[OF c _ , of p' n' d'' "Fetch source # cs'"] x
      show ?thesis by simp
    qed
    with c show ?thesis by blast
  qed
  have C: "(\<exists>e. r1 = Inl e) \<and> w1 = w"
    if a: "waveformCache w source = None \<and> \<not> audioContext w \<and> newAudioContext p \<noteq> None"
  proof -
    from a obtain e where "newAudioContext p = Some e" by auto
    with a getWaveformData_no_context[of w source p e n] assms
    show ?thesis by auto
  qed
  from A B C show ?thesis by blast
qed


theorem getWaveformData_caches_successes_witness:
  "getWaveformData online ''a.mp3'' 2 initial_module
     = (Inr \<lparr>w_peaks = [1, 1 / 4], w_duration = 2\<rparr>,
        \<lparr>audioContext = True,
         waveformCache = [''a.mp3'' \<mapsto> \<lparr>w_peaks = [1, 1 / 4], w_duration = 2\<rparr>],
         calls = [Fetch ''a.mp3'', ArrayBuffer, DecodeAudioData]\<rparr>)
   \<and> newAudioContext online = None
   \<and> (\<exists>d. fst (decode_path online ''a.mp3'' 2) = Inr d)
   \<and> getWaveformData no_web_audio ''a.mp3'' 80
        \<lparr>audioContext = True,
         waveformCache = [''a.mp3'' \<mapsto> \<lparr>w_peaks = [1, 1 / 4], w_duration = 2\<rparr>],
         calls = [Fetch ''a.mp3'', ArrayBuffer, DecodeAudioData]\<rparr>
     = (Inr \<lparr>w_peaks = [1, 1 / 4], w_duration = 2\<rparr>,
        \<lparr>audioContext = True,
         waveformCache = [''a.mp3'' \<mapsto> \<lparr>w_peaks = [1, 1 / 4], w_duration = 2\<rparr>],
         calls = [Fetch ''a.mp3'', ArrayBuffer, DecodeAudioData]\<rparr>)
   \<and> getWaveformData offline ''a.mp3'' 2 initial_module
     = (Inr \<lparr>w_peaks = [3 / 10, 3 / 10], w_duration = 0\<rparr>,
        \<lparr>audioContext = True, waveformCache = Map.empty, calls = [Fetch ''a.mp3'']\<rparr>)
   \<and> waveformCache initial_module ''a.mp3'' = None
   \<and> newAudioContext offline = None
   \<and> (\<exists>e. fst (decode_path offline ''a.mp3'' 2) = Inl e)
   \<and> (\<exists>cs. calls (snd (getWaveformData online ''a.mp3'' 2
              \<lparr>audioContext = True, waveformCache = Map.empty, calls = [Fetch ''a.mp3'']\<rparr>))
            = [Fetch ''a.mp3''] @ Fetch ''a.mp3'' # cs)
   \<and> \<not> audioContext initial_module
   \<and> newAudioContext no_web_audio = Some TypeError
   \<and> getWaveformData no_web_audio ''a.mp3'' 2 initial_module = (Inl TypeError, initial_module)"
proof -
  have d1: "\<exists>d. fst (decode_path online ''a.mp3'' 2) = Inr d"
    by (simp add: decode_path_def online_def)
  have d2: "\<exists>e. fst (decode_path offline ''a.mp3'' 2) = Inl e"
    by (simp add: decode_path_def offline_def online_def)
  have c: "waveformCache initial_module ''a.mp3'' = None" "\<not> audioContext initial_module"
    by (simp_all add: initial_module_def)
  have n: "newAudioContext online = None" "newAudioContext offline = None"
    "newAudioContext no_web_audio = Some TypeError"
    by (simp_all add: online_def offline_def no_web_audio_def)
  have r3: "getWaveformData no_web_audio ''a.mp3'' 2 initial_module = (Inl TypeError, initial_module)"
    using c n(3) by (simp add: getWaveformData_no_context)
  show ?thesis
    using getWaveformData_caches_successes [OF online_result, of no_web_audio 80]
      getWaveformData_caches_successes [OF offline_result, of online 2]
      getWaveformData_caches_successes [OF r3, of online 2]
      online_result offline_result r3 d1 d2 c n
    by simp
qed

text \<open>
  The claim as the specification words it, for every source, fails for a source whose
  first request is rejected: the second call fetches again and returns another result
  than the first.
\<close>

theorem getWaveformData_retries_after_failure_counterexample:
  "waveformCache (snd (getWaveformData offline ''a.mp3'' 2 initial_module)) ''a.mp3'' = None
   \<and> calls (snd (getWaveformData offline ''a.mp3'' 2 initial_module)) = [Fetch ''a.mp3'']
   \<and> calls (snd (getWaveformData online ''a.mp3'' 2
              (snd (getWaveformData offline ''a.mp3'' 2 initial_module))))
        = [Fetch ''a.mp3'', Fetch ''a.mp3'', ArrayBuffer, DecodeAudioData]
   \<and> fst (getWaveformData online ''a.mp3'' 2
              (snd (getWaveformData offline ''a.mp3'' 2 initial_module)))
        \<noteq> fst (getWaveformData offline ''a.mp3'' 2 initial_module)"
  unfolding offline_result
  by (simp add: getWaveformData_def decode_path_def compute_waveform_def online_def
      getAudioContext_def block_peak_def Let_def upt_rec)

text \<open>
  Claim C9, as the code has it. Let the source not be cached and let \<^verbatim>\<open>fetch\<close>,
  \<^verbatim>\<open>arrayBuffer\<close> or \<^verbatim>\<open>decodeAudioData\<close> be rejected with any exception. If the audio
  context exists or can be created and the bar count is an integer from 0 to \<open>2^32 - 1\<close>,
  \<open>getWaveformData\<close> returns the placeholder, \<open>barCount\<close> peaks that are all 0.3 and
  duration 0, and leaves the cache as it was. It does throw to its caller in two cases:
  with a \<^verbatim>\<open>RangeError\<close> from \<^verbatim>\<open>Array(barCount)\<close> inside the \<^verbatim>\<open>catch\<close> when the bar count
  is negative, fractional or above \<open>2^32 - 1\<close>, and with the constructor's exception when
  \<^verbatim>\<open>getAudioContext()\<close>, which stands before the \<^verbatim>\<open>try\<close>, cannot create the context.
\<close>

theorem getWaveformData_placeholder_on_failure:
  assumes "waveformCache w source = None"
    and "fetch p source = Inl e
       \<or> (\<exists>r. fetch p source = Inr r
            \<and> (arrayBuffer p r = Inl e
               \<or> (\<exists>b. arrayBuffer p r = Inr b \<and> decodeAudioData p b = Inl e)))"
  shows "((audioContext w \<or> newAudioContext p = None)
            \<and> 0 \<le> barCount \<and> barCount \<le> 2 ^ 32 - 1 \<and> barCount = of_int \<lfloor>barCount\<rfloor>
          \<longrightarrow> fst (getWaveformData p source barCount w)
                = Inr \<lparr>w_peaks = replicate (nat \<lfloor>barCount\<rfloor>) 0.3, w_duration = 0\<rparr>
              \<and> real (length (replicate (nat \<lfloor>barCount\<rfloor>) (0.3 :: real))) = barCount
              \<and> waveformCache (snd (getWaveformData p source barCount w)) = waveformCache w)
       \<and> ((audioContext w \<or> newAudioContext p = None)
            \<and> \<not> (0 \<le> barCount \<and> barCount \<le> 2 ^ 32 - 1 \<and> barCount = of_int \<lfloor>barCount\<rfloor>)
          \<longrightarrow> fst (getWaveformData p source barCount w) = Inl RangeError)
       \<and> (\<not> audioContext w \<and> newAudioContext p = Some e'
          \<longrightarrow> getWaveformData p source barCount w = (Inl e', w))"
proof -
  obtain cs where d: "decode_path p source barCount = (Inl e, cs)"
    using assms(2) by (auto simp add: decode_path_def)
  have A: "fst (getWaveformData p source barCount w)
                = Inr \<lparr>w_peaks = replicate (nat \<lfloor>barCount\<rfloor>) 0.3, w_duration = 0\<rparr>
              \<and> real (length (replicate (nat \<lfloor>barCount\<rfloor>) (0.3 :: real))) = barCount
              \<and> waveformCache (snd (getWaveformData p source barCount w)) = waveformCache w"
    if "(audioContext w \<or> newAudioContext p = None)
            \<and> 0 \<le> barCount \<and> barCount \<le> 2 ^ 32 - 1 \<and> barCount = of_int \<lfloor>barCount\<rfloor>"
  proof -
    have l: "real (nat \<lfloor>barCount\<rfloor>) = barCount"
      using that by (metis floor_of_int of_int_0_le_iff of_nat_nat)
    have "array_length barCount = Inr (nat \<lfloor>barCount\<rfloor>)"
      using that by (simp add: array_length_def)
    with getWaveformData_failure[OF assms(1) _ d] that l
    show ?thesis by simp
  qed
  have B: "fst (getWaveformData p source barCount w) = Inl RangeError"
    if "(audioContext w \<or> newAudioContext p = None)
            \<and> \<not> (0 \<le> barCount \<and> barCount \<le> 2 ^ 32 - 1 \<and> barCount = of_int \<lfloor>barCount\<rfloor>)"
  proof -
    have "array_length barCount = Inl RangeError"
      using that by (auto simp add: array_length_def)
    with getWaveformData_failure[OF assms(1) _ d] that
    show ?thesis by simp
  qed
  have C: "getWaveformData p source barCount w = (Inl e', w)"
    if "\<not> audioContext w \<and> newAudioContext p = Some e'"
    using that assms(1) by (simp add: getWaveformData_no_context)
  from A B C show ?thesis by blast
qed

theorem getWaveformData_placeholder_on_failure_witness:
  "waveformCache initial_module ''a.mp3'' = None
   \<and> fetch offline ''a.mp3'' = Inl TypeError
   \<and> newAudioContext offline = None
   \<and> (0::real) \<le> 80 \<and> (80::real) \<le> 2 ^ 32 - 1 \<and> (80::real) = of_int \<lfloor>80::real\<rfloor>
   \<and> fst (getWaveformData offline ''a.mp3'' 80 initial_module)
        = Inr \<lparr>w_peaks = replicate 80 0.3, w_duration = 0\<rparr>
   \<and> fetch corrupt ''a.mp3'' = Inr ''a.mp3''
   \<and> arrayBuffer corrupt ''a.mp3'' = Inr [1 / 2, - 1, 1 / 4, 0]
   \<and> decodeAudioData corrupt [1 / 2, - 1, 1 / 4, 0] = Inl EncodingError
   \<and> fst (getWaveformData corrupt ''a.mp3'' 80 initial_module)
        = Inr \<lparr>w_peaks = replicate 80 0.3, w_duration = 0\<rparr>
   \<and> waveformCache (snd (getWaveformData corrupt ''a.mp3'' 80 initial_module)) = Map.empty
   \<and> \<not> ((0::real) \<le> 5 / 2 \<and> (5::real) / 2 \<le> 2 ^ 32 - 1 \<and> (5::real) / 2 = of_int \<lfloor>5 / 2 :: real\<rfloor>)
   \<and> fst (getWaveformData offline ''a.mp3'' (5 / 2) initial_module) = Inl RangeError
   \<and> \<not> audioContext initial_module
   \<and> newAudioContext no_web_audio = Some TypeError
   \<and> fetch no_web_audio ''a.mp3'' = Inl TypeError
   \<and> getWaveformData no_web_audio ''a.mp3'' 80 initial_module = (Inl TypeError, initial_module)"
proof -
  have c: "waveformCache initial_module ''a.mp3'' = None" "\<not> audioContext initial_module"
    by (simp_all add: initial_module_def)
  have f: "fetch offline ''a.mp3'' = Inl TypeError" "newAudioContext offline = None"
    "newAudioContext corrupt = None" "newAudioContext no_web_audio = Some TypeError"
    "fetch no_web_audio ''a.mp3'' = Inl TypeError"
    by (simp_all add: offline_def online_def corrupt_def no_web_audio_def)
  have g: "fetch corrupt ''a.mp3'' = Inr ''a.mp3''"
    "arrayBuffer corrupt ''a.mp3'' = Inr [1 / 2, - 1, 1 / 4, 0]"
    "decodeAudioData corrupt [1 / 2, - 1, 1 / 4, 0] = Inl EncodingError"
    by (simp_all add: corrupt_def online_def)
  have g': "fetch corrupt ''a.mp3'' = Inl EncodingError
       \<or> (\<exists>r. fetch corrupt ''a.mp3'' = Inr r
            \<and> (arrayBuffer corrupt r = Inl EncodingError
               \<or> (\<exists>b. arrayBuffer corrupt r = Inr b \<and> decodeAudioData corrupt b = Inl EncodingError)))"
    using g by simp
  have k: "nat \<lfloor>80::real\<rfloor> = 80" by simp
  show ?thesis
    using getWaveformData_placeholder_on_failure [where w = initial_module and source = "''a.mp3''"
        and p = offline and e = TypeError and barCount = 80]
      getWaveformData_placeholder_on_failure [OF c(1) g', where barCount = 80]
      getWaveformData_placeholder_on_failure [where w = initial_module and source = "''a.mp3''"
        and p = offline and e = TypeError and barCount = "5 / 2"]
      getWaveformData_placeholder_on_failure [where w = initial_module and source = "''a.mp3''"
        and p = no_web_audio and e = TypeError and barCount = 80 and e' = TypeError]
      c f g k
    by (simp add: initial_module_def)
qed

text \<open>
  The claim as the specification words it, that \<open>getWaveformData\<close> never throws to its
  caller, fails for a rejected \<^verbatim>\<open>fetch\<close> with bar count \<open>-1\<close>, and on a platform without
  an \<^verbatim>\<open>AudioContext\<close> constructor.
\<close>

theorem getWaveformData_throws_counterexample:
  "fetch offline ''a.mp3'' = Inl TypeError
   \<and> fst (getWaveformData offline ''a.mp3'' (- 1) initial_module) = Inl RangeError
   \<and> fst (getWaveformData no_web_audio ''a.mp3'' 80 initial_module) = Inl TypeError"
  by (simp add: getWaveformData_def decode_path_def offline_def online_def no_web_audio_def
      array_length_def initial_module_def getAudioContext_def Let_def)

end
